theory Spec2Isabelle
  imports Main "HOL-Library.Word"
begin

unbundle bit_operations_syntax

section \<open>Python values used by the simulator\<close>

text \<open>
  The simulator (src/armsim.py) keeps its machine state in module-level globals and works
  on Python's unbounded integers, so register values, addresses and counters are
  \<^typ>\<open>int\<close>. An exception aborts the run; it is the \<open>Inl\<close> branch of a sum.
\<close>

datatype error =
    OutOfBounds              \<comment> \<open>ValueError "out of bounds memory access"\<close>
  | KeyError                 \<comment> \<open>a dict read of a missing key\<close>
  | OverflowError            \<comment> \<open>int.to_bytes of a value that does not fit\<close>
  | ZeroDivisionError
  | AssertionError
  | IndexError
  | UnicodeError             \<comment> \<open>encoding or decoding a non-ASCII character\<close>
  | EOFError                 \<comment> \<open>input() at end of input\<close>
  | NegativeCount            \<comment> \<open>ValueError of a negative shift count or of os.urandom\<close>
  | TakesRegisters           \<comment> \<open>ValueError "... takes no registers" / "takes one register"\<close>
  | NotInList                \<comment> \<open>ValueError of list.index\<close>
  | RetOutOfRange            \<comment> \<open>ValueError "ret: address in LR out of range"\<close>
  | BreakTooLarge            \<comment> \<open>ValueError "break size of ... too large"\<close>
  | UnsupportedSyscall
  | UnsupportedInstruction
  | StackOverflow
  | StackUnderflow
  | AlignmentError
  | InvalidLiteral           \<comment> \<open>ValueError of int() on text that is no number\<close>
  | HostError                \<comment> \<open>an exception raised by a host callable\<close>

type_synonym byte = "8 word"

text \<open>Sequencing of computations that may raise.\<close>

definition ebind :: "error + 'a \<Rightarrow> ('a \<Rightarrow> error + 'b) \<Rightarrow> error + 'b" where
  "ebind m f = (case m of Inl e \<Rightarrow> Inl e | Inr x \<Rightarrow> f x)"

text \<open>\<open>d[k]\<close> on a dict: KeyError when the key is missing.\<close>

definition dict_get :: "('k \<rightharpoonup> 'v) \<Rightarrow> 'k \<Rightarrow> error + 'v" where
  "dict_get d k = (case d k of None \<Rightarrow> Inl KeyError | Some v \<Rightarrow> Inr v)"

text \<open>
  Slices. Python clamps both bounds of \<open>xs[a:b]\<close> to the sequence, a negative bound
  counting from the end; \<open>xs[a:b] = ys\<close> replaces that window (empty when the upper
  bound is below the lower one) and so can lengthen or shorten the list.
\<close>

definition slice_bound :: "nat \<Rightarrow> int \<Rightarrow> nat" where
  "slice_bound n i = (if i < 0 then nat (i + int n) else min n (nat i))"

definition py_slice :: "'a list \<Rightarrow> int \<Rightarrow> int \<Rightarrow> 'a list" where
  "py_slice xs a b =
     (let lo = slice_bound (length xs) a; hi = slice_bound (length xs) b
      in take (hi - lo) (drop lo xs))"

definition slice_assign :: "'a list \<Rightarrow> int \<Rightarrow> int \<Rightarrow> 'a list \<Rightarrow> 'a list" where
  "slice_assign xs a b ys =
     (let lo = slice_bound (length xs) a; hi = max lo (slice_bound (length xs) b)
      in take lo xs @ ys @ drop hi xs)"

text \<open>\<open>xs[i]\<close> on a list: a negative index counts from the end, IndexError outside.\<close>

definition index_list :: "'a list \<Rightarrow> int \<Rightarrow> error + 'a" where
  "index_list xs i =
     (let n = int (length xs); j = (if i < 0 then i + n else i)
      in if 0 \<le> j \<and> j < n then Inr (xs ! nat j) else Inl IndexError)"

text \<open>\<open>xs.index(x)\<close>: the first position of \<open>x\<close>, ValueError when absent.\<close>

fun index_of :: "'a list \<Rightarrow> 'a \<Rightarrow> error + int" where
  "index_of [] x = Inl NotInList"
| "index_of (y # ys) x =
     (if y = x then Inr 0 else ebind (index_of ys x) (\<lambda>i. Inr (i + 1)))"

text \<open>
  \<open>int.to_bytes(n, k, 'little', signed=sg)\<close> and
  \<open>int.from_bytes(bytes(bs), 'little', signed=sg)\<close>. Every writer of the memory list stores
  the elements of a \<open>bytes\<close> value or zeros, so an element is a \<^typ>\<open>byte\<close>.
\<close>

definition le_bytes :: "nat \<Rightarrow> int \<Rightarrow> byte list" where
  "le_bytes k n = map (\<lambda>i. word_of_int (n div 256 ^ i)) [0..<k]"

definition to_bytes :: "int \<Rightarrow> nat \<Rightarrow> bool \<Rightarrow> error + byte list" where
  "to_bytes n k sg =
     (if sg then
        (if - (256 ^ k div 2) \<le> n \<and> n < 256 ^ k div 2 then Inr (le_bytes k n)
         else Inl OverflowError)
      else
        (if 0 \<le> n \<and> n < 256 ^ k then Inr (le_bytes k n) else Inl OverflowError))"

fun le_value :: "byte list \<Rightarrow> int" where
  "le_value [] = 0"
| "le_value (b # bs) = uint b + 256 * le_value bs"

definition from_bytes :: "byte list \<Rightarrow> bool \<Rightarrow> int" where
  "from_bytes bs sg =
     (let u = le_value bs
      in if sg \<and> bs \<noteq> [] \<and> 256 ^ length bs div 2 \<le> u then u - 256 ^ length bs else u)"

section \<open>Machine state\<close>

text \<open>
  Register names are the strings the register pattern accepts: \<open>x0\<close> .. \<open>x29\<close>, \<open>fp\<close>,
  \<open>lr\<close>, \<open>sp\<close>, \<open>xzr\<close>. The register file is a dict; it has no key \<open>x29\<close> until one is
  written.
\<close>

datatype regname = X nat | FP | LR | SP | XZR

text \<open>
  \<open>ld_dst\<close> and \<open>last_dst\<close> hold \<open>-1\<close> initially, \<open>None\<close> (\<open>last_dst\<close>, at the start of
  every \<open>execute\<close>) or a register name.
\<close>

datatype pyreg = Minus1 | PyNone | RegName regname

section \<open>Decoded instruction forms\<close>

text \<open>
  \<open>execute\<close> matches a line against a cascade of patterns and runs the first form that
  matches. A value of \<open>instr\<close> is the form a line matches together with the operands the
  form extracts; \<open>Unsupported\<close> stands for a line that matches no form. The loads and
  stores are grouped by mnemonic and addressing mode; what the source writes separately
  for each of them (width, signedness, bound of the range check, stall penalty) is
  tabulated below, one entry per form.
\<close>

datatype amode =
    Rn regname             \<comment> \<open>\<open>[rn]\<close>\<close>
  | RnImm regname int      \<comment> \<open>\<open>[rn,imm]\<close>\<close>
  | RnRm regname regname   \<comment> \<open>\<open>[rn,rm]\<close>\<close>

datatype lkind = LDURSW | LDURH | LDURSH | LDURB | LDURSB | LDUR

datatype skind = STURW | STURH | STURB | STUR

datatype alu = AddOp | SubOp | AndOp | OrrOp | EorOp

datatype operand = Imm int | Reg regname

datatype cond = LT | LE | GT | GE | EQ | NE | MI | PL

datatype instr =
    Ld lkind regname amode               \<comment> \<open>\<open>ldur.. rt,[..]\<close>\<close>
  | LdurVar regname string               \<comment> \<open>\<open>ldur rt,=var\<close>\<close>
  | St skind regname amode               \<comment> \<open>\<open>stur.. rt,[..]\<close>\<close>
  | MovImm regname int
  | MovReg regname regname
  | AsrImm regname regname int
  | LsrImm regname regname int
  | LsrReg regname regname regname
  | LslImm regname regname int
  | LslReg regname regname regname
  | Alu alu bool regname regname operand \<comment> \<open>\<open>add{s}\<close>, \<open>sub{s}\<close>, \<open>and{s}\<close>, \<open>orr{s}\<close>, \<open>eor{s}\<close>; the flag is the \<open>s\<close>\<close>
  | Mul regname regname regname
  | Udiv regname regname regname
  | Sdiv regname regname regname
  | Cmp regname operand
  | Cbnz regname string
  | Cbz regname string
  | B string
  | Bcond cond string                    \<comment> \<open>\<open>b.lt\<close> .. \<open>b.pl\<close>, the period optional\<close>
  | Bl string
  | BrLr
  | Svc0
  | Unsupported

text \<open>
  The instruction stream holds label lines (\<open>name:\<close>) and code lines. Label names stand
  for the source's \<open>name:\<close> strings wherever those are dict keys or list elements.
\<close>

datatype line = Label string | Code instr

record state =
  asm :: "line list"
  original_break :: int
  brk :: int
  reg :: "regname \<rightharpoonup> int"
  pc :: int
  n_flag :: bool
  z_flag :: bool
  label_hit_counts :: "string \<rightharpoonup> int"
  linked_labels :: "string set"          \<comment> \<open>the keys of the dict of host callables\<close>
  sym_table :: "string \<rightharpoonup> int"
  mem :: "byte list"
  forbidden_instructions :: "string set"
  forbid_recursion :: bool
  require_recursion :: bool
  forbid_loops :: bool
  check_dead_code :: bool
  recursive_labels :: "string set"
  cycle_count :: int
  execute_count :: int
  ld_cycle :: int
  ld_dst :: pyreg
  flag_cycle :: int
  last_dst :: pyreg
  stdin :: "string list"                 \<comment> \<open>the lines \<open>input()\<close> will return\<close>
  stdout :: string                       \<comment> \<open>what \<open>print\<close> has written\<close>

text \<open>
  What the host supplies: the callable behind each linked label, which may change any
  part of the state, and the bytes \<open>os.urandom\<close> delivers for a given count.
\<close>

record env =
  host_call :: "string \<Rightarrow> state \<Rightarrow> error + state"
  urandom :: "nat \<Rightarrow> byte list"

definition STACK_SIZE :: int where
  "STACK_SIZE = 4096"

definition HEAP_SIZE :: int where
  "HEAP_SIZE = 0x4000"

text \<open>The globals as the module initialises them.\<close>

definition initial_reg :: "regname \<rightharpoonup> int" where
  "initial_reg r =
     (case r of X n \<Rightarrow> (if n \<le> 28 then Some 0 else None) | _ \<Rightarrow> Some 0)"

definition initial_state :: state where
  "initial_state =
     \<lparr> asm = [], original_break = 0, brk = 0, reg = initial_reg, pc = 0,
       n_flag = False, z_flag = False, label_hit_counts = Map.empty, linked_labels = {},
       sym_table = Map.empty, mem = [], forbidden_instructions = {},
       forbid_recursion = False, require_recursion = False, forbid_loops = False,
       check_dead_code = False, recursive_labels = {},
       cycle_count = 0, execute_count = 0, ld_cycle = - 1, ld_dst = Minus1,
       flag_cycle = - 1, last_dst = Minus1, stdin = [], stdout = [] \<rparr>"

section \<open>reset\<close>

definition reset :: "state \<Rightarrow> state" where
  "reset s =
     s\<lparr> forbidden_instructions := {},
        require_recursion := False,
        forbid_recursion := False,
        forbid_loops := False,
        reg := (\<lambda>r. case reg s r of None \<Rightarrow> None | Some v \<Rightarrow> Some 0),
        mem := [],
        asm := [],
        sym_table := Map.empty,
        n_flag := False,
        z_flag := False,
        pc := 0,
        cycle_count := 0,
        execute_count := 0,
        ld_cycle := - 1,
        ld_dst := Minus1,
        flag_cycle := - 1,
        last_dst := Minus1,
        linked_labels := {} \<rparr>"

section \<open>execute\<close>

text \<open>
  Branch forms reject a line in which the register pattern finds more registers than
  the form has. The mnemonic holds none, so that is the case exactly when the pattern
  finds one inside the label: \<open>lr\<close>, \<open>fp\<close>, \<open>sp\<close> or \<open>xzr\<close> anywhere in it, or a label
  that is, after its leading periods, \<open>x0\<close> .. \<open>x29\<close> (the lookarounds allow no word
  character before the \<open>x\<close> or after the digits).
\<close>

fun has_infix :: "string \<Rightarrow> string \<Rightarrow> bool" where
  "has_infix p [] = (p = [])"
| "has_infix p (c # cs) = (take (length p) (c # cs) = p \<or> has_infix p cs)"

definition is_digit :: "char \<Rightarrow> bool" where
  "is_digit c = (c \<in> set ''0123456789'')"

definition is_xreg :: "string \<Rightarrow> bool" where
  "is_xreg w =
     (case w of
        [x, d] \<Rightarrow> x = CHR ''x'' \<and> is_digit d
      | [x, t, d] \<Rightarrow> x = CHR ''x'' \<and> (t = CHR ''1'' \<or> t = CHR ''2'') \<and> is_digit d
      | _ \<Rightarrow> False)"

definition mentions_register :: "string \<Rightarrow> bool" where
  "mentions_register l =
     (has_infix ''lr'' l \<or> has_infix ''fp'' l \<or> has_infix ''sp'' l \<or> has_infix ''xzr'' l
      \<or> is_xreg (dropWhile (\<lambda>c. c = CHR ''.'') l))"

text \<open>Hazard bookkeeping.\<close>

definition add_cycles :: "int \<Rightarrow> state \<Rightarrow> state" where
  "add_cycles n s = s\<lparr>cycle_count := cycle_count s + n\<rparr>"

text \<open>
  \<open>if ld_dst == rn and (current_cycle - ld_cycle) <= k: cycle_count += n\<close>, and the same
  with \<open>(ld_dst == rn or ld_dst == rm)\<close>.
\<close>

definition stall1 :: "regname \<Rightarrow> int \<Rightarrow> int \<Rightarrow> int \<Rightarrow> state \<Rightarrow> state" where
  "stall1 rn k cur n s =
     (if ld_dst s = RegName rn \<and> cur - ld_cycle s \<le> k then add_cycles n s else s)"

definition stall2 :: "regname \<Rightarrow> regname \<Rightarrow> int \<Rightarrow> int \<Rightarrow> int \<Rightarrow> state \<Rightarrow> state" where
  "stall2 rn rm k cur n s =
     (if (ld_dst s = RegName rn \<or> ld_dst s = RegName rm) \<and> cur - ld_cycle s \<le> k
      then add_cycles n s else s)"

text \<open>
  The penalty a load or store form adds when it stalls: a flat cycle, the distance
  \<open>current_cycle - ld_cycle\<close>, or (\<open>stur rt,[rn,imm]\<close>) no stall test at all.
\<close>

datatype penalty = Flat | Distance | NoStall

fun ld_penalty :: "lkind \<Rightarrow> amode \<Rightarrow> penalty" where
  "ld_penalty LDUR m = Flat"
| "ld_penalty k (Rn rn) = Flat"
| "ld_penalty LDURB (RnImm rn imm) = Flat"
| "ld_penalty LDURSB (RnImm rn imm) = Flat"
| "ld_penalty k (RnImm rn imm) = Distance"
| "ld_penalty k (RnRm rn rm) = Distance"

fun st_penalty :: "skind \<Rightarrow> amode \<Rightarrow> penalty" where
  "st_penalty k (Rn rn) = Distance"
| "st_penalty STUR (RnImm rn imm) = NoStall"
| "st_penalty k (RnImm rn imm) = Distance"
| "st_penalty k (RnRm rn rm) = Flat"

definition mem_stall :: "penalty \<Rightarrow> amode \<Rightarrow> int \<Rightarrow> state \<Rightarrow> state" where
  "mem_stall p m cur s =
     (let n = (case p of Flat \<Rightarrow> 1 | Distance \<Rightarrow> cur - ld_cycle s | NoStall \<Rightarrow> 0)
      in case p of
           NoStall \<Rightarrow> s
         | _ \<Rightarrow> (case m of
                  Rn rn \<Rightarrow> stall1 rn 2 cur n s
                | RnImm rn imm \<Rightarrow> stall1 rn 2 cur n s
                | RnRm rn rm \<Rightarrow> stall2 rn rm 2 cur n s))"

text \<open>Bytes read by each load, and whether they are decoded as signed.\<close>

fun ld_width :: "lkind \<Rightarrow> nat" where
  "ld_width LDURSW = 4"
| "ld_width LDURH = 2"
| "ld_width LDURSH = 2"
| "ld_width LDURB = 1"
| "ld_width LDURSB = 1"
| "ld_width LDUR = 8"

fun ld_signed :: "lkind \<Rightarrow> bool" where
  "ld_signed LDURSW = True"
| "ld_signed LDURSH = True"
| "ld_signed LDURSB = True"
| "ld_signed k = False"

text \<open>
  The constant \<open>c\<close> of the form's range check \<open>addr > len(mem) - c\<close>, as each form
  writes it.
\<close>

fun ld_bound :: "lkind \<Rightarrow> amode \<Rightarrow> int" where
  "ld_bound LDURSW (Rn rn) = 4"
| "ld_bound LDURSW (RnImm rn imm) = 2"
| "ld_bound LDURSW (RnRm rn rm) = 2"
| "ld_bound LDURH m = 2"
| "ld_bound LDURSH m = 2"
| "ld_bound LDURB m = 1"
| "ld_bound LDURSB m = 1"
| "ld_bound LDUR m = 8"

text \<open>
  Bytes written by each store, the signedness of the 8-byte encoding they are cut from,
  and the constant of the range check.
\<close>

fun st_width :: "skind \<Rightarrow> nat" where
  "st_width STURW = 4"
| "st_width STURH = 2"
| "st_width STURB = 1"
| "st_width STUR = 8"

fun st_signed :: "skind \<Rightarrow> bool" where
  "st_signed STUR = False"
| "st_signed k = True"

fun st_bound :: "skind \<Rightarrow> int" where
  "st_bound STURW = 2"
| "st_bound STURH = 2"
| "st_bound STURB = 1"
| "st_bound STUR = 8"

fun effective_address :: "amode \<Rightarrow> state \<Rightarrow> error + int" where
  "effective_address (Rn rn) s = dict_get (reg s) rn"
| "effective_address (RnImm rn imm) s = ebind (dict_get (reg s) rn) (\<lambda>a. Inr (a + imm))"
| "effective_address (RnRm rn rm) s =
     ebind (dict_get (reg s) rn) (\<lambda>a. ebind (dict_get (reg s) rm) (\<lambda>b. Inr (a + b)))"

text \<open>\<open>addr < reg['sp'] or addr > len(mem) - c\<close>\<close>

definition out_of_bounds :: "int \<Rightarrow> int \<Rightarrow> state \<Rightarrow> error + bool" where
  "out_of_bounds addr c s =
     ebind (dict_get (reg s) SP) (\<lambda>sp. Inr (addr < sp \<or> addr > int (length (mem s)) - c))"

definition exec_load :: "int \<Rightarrow> lkind \<Rightarrow> regname \<Rightarrow> amode \<Rightarrow> state \<Rightarrow> error + state" where
  "exec_load cur k rt m s0 =
     (let s = mem_stall (ld_penalty k m) m cur s0 in
      ebind (effective_address m s) (\<lambda>addr.
      ebind (out_of_bounds addr (ld_bound k m) s) (\<lambda>oob.
        if oob then Inl OutOfBounds
        else Inr (s\<lparr>reg := (reg s)(rt \<mapsto>
                         from_bytes (py_slice (mem s) addr (addr + int (ld_width k))) (ld_signed k)),
                    ld_cycle := cur,
                    ld_dst := RegName rt\<rparr>))))"

definition exec_store :: "int \<Rightarrow> skind \<Rightarrow> regname \<Rightarrow> amode \<Rightarrow> state \<Rightarrow> error + state" where
  "exec_store cur k rt m s0 =
     (let s = mem_stall (st_penalty k m) m cur s0 in
      ebind (effective_address m s) (\<lambda>addr.
      ebind (out_of_bounds addr (st_bound k) s) (\<lambda>oob.
        if oob then Inl OutOfBounds
        else
          ebind (dict_get (reg s) rt) (\<lambda>v.
          ebind (to_bytes v 8 (st_signed k)) (\<lambda>register_bytes.
            Inr (s\<lparr>mem := slice_assign (mem s) addr (addr + int (st_width k))
                              (take (st_width k) register_bytes)\<rparr>))))))"

text \<open>Arithmetic and logic on Python integers.\<close>

fun alu_apply :: "alu \<Rightarrow> int \<Rightarrow> int \<Rightarrow> int" where
  "alu_apply AddOp a b = a + b"
| "alu_apply SubOp a b = a - b"
| "alu_apply AndOp a b = a AND b"
| "alu_apply OrrOp a b = a OR b"
| "alu_apply EorOp a b = a XOR b"

definition py_rshift :: "int \<Rightarrow> int \<Rightarrow> error + int" where
  "py_rshift x n = (if n < 0 then Inl NegativeCount else Inr (x div 2 ^ nat n))"

definition py_lshift :: "int \<Rightarrow> int \<Rightarrow> error + int" where
  "py_lshift x n = (if n < 0 then Inl NegativeCount else Inr (x * 2 ^ nat n))"

definition mask64 :: int where
  "mask64 = 0xFFFFFFFFFFFFFFFF"

text \<open>\<open>a // b\<close>: floor division, ZeroDivisionError on a zero divisor.\<close>

definition py_floordiv :: "int \<Rightarrow> int \<Rightarrow> error + int" where
  "py_floordiv a b = (if b = 0 then Inl ZeroDivisionError else Inr (a div b))"

fun operand_value :: "operand \<Rightarrow> state \<Rightarrow> error + int" where
  "operand_value (Imm imm) s = Inr imm"
| "operand_value (Reg rm) s = dict_get (reg s) rm"

text \<open>
  The stall test of the arithmetic and logic forms: \<open>add{s} rd,rn,imm\<close> tests a distance
  of at most 1 and adds one cycle, the other immediate forms test at most 2 and add the
  distance, every register form tests both sources and adds one cycle.
\<close>

fun alu_stall :: "alu \<Rightarrow> regname \<Rightarrow> operand \<Rightarrow> int \<Rightarrow> state \<Rightarrow> state" where
  "alu_stall AddOp rn (Imm imm) cur s = stall1 rn 1 cur 1 s"
| "alu_stall op rn (Imm imm) cur s = stall1 rn 2 cur (cur - ld_cycle s) s"
| "alu_stall op rn (Reg rm) cur s = stall2 rn rm 2 cur 1 s"

definition set_flags :: "int \<Rightarrow> int \<Rightarrow> state \<Rightarrow> state" where
  "set_flags v cur s = s\<lparr>n_flag := v < 0, z_flag := (v = 0), flag_cycle := cur\<rparr>"

definition exec_alu ::
    "int \<Rightarrow> alu \<Rightarrow> bool \<Rightarrow> regname \<Rightarrow> regname \<Rightarrow> operand \<Rightarrow> state \<Rightarrow> error + state" where
  "exec_alu cur op setf rd rn opnd s0 =
     (let s = alu_stall op rn opnd cur s0 in
      ebind (dict_get (reg s) rn) (\<lambda>a.
      ebind (operand_value opnd s) (\<lambda>b.
        let v = alu_apply op a b;
            s1 = s\<lparr>reg := (reg s)(rd \<mapsto> v)\<rparr>;
            s2 = (if setf then set_flags v cur s1 else s1)
        in Inr (s2\<lparr>last_dst := RegName rd\<rparr>))))"

text \<open>The three-register forms \<open>mul\<close>, \<open>udiv\<close>, \<open>sdiv\<close>, \<open>lsr\<close>, \<open>lsl\<close>.\<close>

definition exec_rrr ::
    "int \<Rightarrow> (int \<Rightarrow> int \<Rightarrow> error + int) \<Rightarrow> regname \<Rightarrow> regname \<Rightarrow> regname \<Rightarrow> state
     \<Rightarrow> error + state" where
  "exec_rrr cur f rd rn rm s0 =
     (let s = stall2 rn rm 2 cur 1 s0 in
      ebind (dict_get (reg s) rn) (\<lambda>a.
      ebind (dict_get (reg s) rm) (\<lambda>b.
      ebind (f a b) (\<lambda>v.
        Inr (s\<lparr>reg := (reg s)(rd \<mapsto> v), last_dst := RegName rd\<rparr>)))))"

text \<open>The shifts by an immediate: stall on \<open>rn\<close>, adding the distance.\<close>

definition exec_shift_imm ::
    "int \<Rightarrow> (int \<Rightarrow> int \<Rightarrow> error + int) \<Rightarrow> regname \<Rightarrow> regname \<Rightarrow> int \<Rightarrow> state
     \<Rightarrow> error + state" where
  "exec_shift_imm cur f rd rn imm s0 =
     (let s = stall1 rn 2 cur (cur - ld_cycle s0) s0 in
      ebind (dict_get (reg s) rn) (\<lambda>a.
      ebind (f a imm) (\<lambda>v.
        Inr (s\<lparr>reg := (reg s)(rd \<mapsto> v), last_dst := RegName rd\<rparr>))))"

definition exec_cmp :: "int \<Rightarrow> regname \<Rightarrow> operand \<Rightarrow> state \<Rightarrow> error + state" where
  "exec_cmp cur rn opnd s0 =
     (let s = (case opnd of Reg rm \<Rightarrow> stall2 rn rm 2 cur 1 s0
                          | Imm imm \<Rightarrow> stall1 rn 2 cur 1 s0) in
      if opnd = Reg SP then Inl AssertionError
      else
        ebind (dict_get (reg s) rn) (\<lambda>a.
        ebind (operand_value opnd s) (\<lambda>b.
          Inr (s\<lparr>z_flag := (a = b), n_flag := a < b, flag_cycle := cur,
                 last_dst := RegName rn\<rparr>))))"

text \<open>Branches. \<open>pc = asm.index(label + ':')\<close> and the cycle a taken branch costs.\<close>

definition jump :: "string \<Rightarrow> state \<Rightarrow> error + state" where
  "jump l s = ebind (index_of (asm s) (Label l)) (\<lambda>i. Inr (add_cycles 1 (s\<lparr>pc := i\<rparr>)))"

fun cond_holds :: "cond \<Rightarrow> state \<Rightarrow> bool" where
  "cond_holds LT s = n_flag s"
| "cond_holds LE s = (n_flag s \<or> z_flag s)"
| "cond_holds GT s = (\<not> z_flag s \<and> \<not> n_flag s)"
| "cond_holds GE s = (\<not> n_flag s)"
| "cond_holds EQ s = z_flag s"
| "cond_holds NE s = (\<not> z_flag s)"
| "cond_holds MI s = n_flag s"
| "cond_holds PL s = (\<not> n_flag s \<or> z_flag s)"

text \<open>
  \<open>if (current_cycle - flag_cycle <= 1): cycle_count += 1\<close>, which every conditional
  branch form has except \<open>b.mi\<close>.
\<close>

fun flag_stall :: "cond \<Rightarrow> int \<Rightarrow> state \<Rightarrow> state" where
  "flag_stall MI cur s = s"
| "flag_stall c cur s = (if cur - flag_cycle s \<le> 1 then add_cycles 1 s else s)"

definition exec_bcond :: "int \<Rightarrow> cond \<Rightarrow> string \<Rightarrow> state \<Rightarrow> error + state" where
  "exec_bcond cur c l s0 =
     (if mentions_register l then Inl TakesRegisters
      else let s = flag_stall c cur s0 in
           if cond_holds c s then jump l s else Inr s)"

text \<open>
  \<open>cbz\<close> and \<open>cbnz\<close>; \<open>taken\<close> is the test on the register's value. \<open>last_dst\<close> is
  compared after \<open>execute\<close> has set it to \<open>None\<close>.
\<close>

definition exec_cb :: "int \<Rightarrow> (int \<Rightarrow> bool) \<Rightarrow> regname \<Rightarrow> string \<Rightarrow> state \<Rightarrow> error + state" where
  "exec_cb cur taken rn l s0 =
     (if mentions_register l then Inl TakesRegisters
      else
        let s = (if last_dst s0 = RegName rn then add_cycles 1 s0
                 else if ld_dst s0 = RegName rn \<and> cur - ld_cycle s0 \<le> 2
                      then add_cycles (3 - (cur - ld_cycle s0)) s0
                 else s0)
        in ebind (dict_get (reg s) rn) (\<lambda>v. if taken v then jump l s else Inr s))"

definition exec_bl :: "env \<Rightarrow> int \<Rightarrow> string \<Rightarrow> state \<Rightarrow> error + state" where
  "exec_bl e cur l s0 =
     (if mentions_register l then Inl TakesRegisters
      else
        let s1 = (if cur - flag_cycle s0 \<le> 1 then add_cycles 1 s0 else s0);
            s2 = s1\<lparr>reg := (reg s1)(LR \<mapsto> pc s1)\<rparr>;
            s3 = (case label_hit_counts s2 l of
                    None \<Rightarrow> s2
                  | Some n \<Rightarrow> s2\<lparr>label_hit_counts := (label_hit_counts s2)(l \<mapsto> n + 1)\<rparr>)
        in ebind (if l \<in> linked_labels s3 then host_call e l s3
                  else ebind (index_of (asm s3) (Label l)) (\<lambda>i. Inr (s3\<lparr>pc := i\<rparr>)))
             (\<lambda>s4. Inr (add_cycles 1 s4)))"

definition exec_br_lr :: "state \<Rightarrow> error + state" where
  "exec_br_lr s =
     ebind (dict_get (reg s) LR) (\<lambda>addr.
       if \<not> (0 \<le> addr \<and> addr < int (length (asm s))) then Inl RetOutOfRange
       else Inr (add_cycles 1 (s\<lparr>pc := addr\<rparr>)))"

text \<open>System calls. \<open>bytes(..).decode('ascii')\<close> and \<open>bytes(.., 'ascii')\<close>:\<close>

definition decode_ascii :: "byte list \<Rightarrow> error + string" where
  "decode_ascii bs =
     (if list_all (\<lambda>b. b < 128) bs then Inr (map (\<lambda>b. char_of (unat b)) bs)
      else Inl UnicodeError)"

definition encode_ascii :: "string \<Rightarrow> error + byte list" where
  "encode_ascii cs =
     (if list_all (\<lambda>c. (of_char c :: nat) < 128) cs
      then Inr (map (\<lambda>c. word_of_nat (of_char c)) cs)
      else Inl UnicodeError)"

definition sys_write :: "state \<Rightarrow> error + state" where
  "sys_write s =
     ebind (dict_get (reg s) (X 0)) (\<lambda>fd.
       if fd \<noteq> 1 then Inl AssertionError
       else
         ebind (dict_get (reg s) (X 2)) (\<lambda>len.
         ebind (dict_get (reg s) (X 1)) (\<lambda>addr.
         ebind (decode_ascii (py_slice (mem s) addr (addr + len))) (\<lambda>output.
           Inr (s\<lparr>stdout := stdout s @ output\<rparr>)))))"

definition sys_read :: "state \<Rightarrow> error + state" where
  "sys_read s =
     ebind (dict_get (reg s) (X 2)) (\<lambda>len.
     ebind (dict_get (reg s) (X 1)) (\<lambda>addr.
       case stdin s of
         [] \<Rightarrow> Inl EOFError
       | ln # rest \<Rightarrow>
           let enter = py_slice (ln @ [CHR 0x0A]) 0 len in
           ebind (encode_ascii enter) (\<lambda>bs.
             Inr (s\<lparr>mem := slice_assign (mem s) addr (addr + int (length enter)) bs,
                    reg := (reg s)(X 0 \<mapsto> int (length enter)),
                    stdin := rest\<rparr>))))"

definition sys_brk :: "state \<Rightarrow> error + state" where
  "sys_brk s =
     ebind (dict_get (reg s) (X 0)) (\<lambda>new_brk.
       if new_brk < original_break s then Inr (s\<lparr>reg := (reg s)(X 0 \<mapsto> brk s)\<rparr>)
       else if new_brk = original_break s then
         Inr (s\<lparr>brk := new_brk,
                reg := (reg s)(X 0 \<mapsto> new_brk),
                mem := py_slice (mem s) 0 (original_break s)\<rparr>)
       else
         let break_size = new_brk - original_break s;
             page = (break_size + 0x1000) - break_size mod 0x1000
         in if page > HEAP_SIZE then Inl BreakTooLarge
            else
              Inr (s\<lparr>mem := (if int (length (mem s)) > page + original_break s
                              then py_slice (mem s) 0 (page + original_break s)
                              else mem s @ replicate (nat page) 0),
                     brk := new_brk\<rparr>))"

definition sys_getrandom :: "env \<Rightarrow> state \<Rightarrow> error + state" where
  "sys_getrandom e s =
     ebind (dict_get (reg s) (X 0)) (\<lambda>addr.
     ebind (dict_get (reg s) (X 1)) (\<lambda>quantity.
       if quantity < 0 then Inl NegativeCount
       else
         Inr (s\<lparr>mem := slice_assign (mem s) addr (addr + quantity) (urandom e (nat quantity)),
                reg := (reg s)(X 0 \<mapsto> quantity)\<rparr>)))"

definition exec_svc :: "env \<Rightarrow> state \<Rightarrow> error + state" where
  "exec_svc e s =
     ebind (dict_get (reg s) (X 8)) (\<lambda>syscall.
       if syscall = 93 then Inr (s\<lparr>pc := int (length (asm s))\<rparr>)
       else if syscall = 64 then sys_write s
       else if syscall = 63 then sys_read s
       else if syscall = 214 then sys_brk s
       else if syscall = 278 then sys_getrandom e s
       else Inl UnsupportedSyscall)"

text \<open>
  The dispatch, in the order of the source. \<open>cur\<close> is \<open>current_cycle\<close>, the cycle count
  before this instruction. The source has no working form for \<open>asr\<close> with a register
  count (its pattern repeats the immediate one), so such a line is \<open>Unsupported\<close>.
\<close>

fun dispatch :: "env \<Rightarrow> int \<Rightarrow> instr \<Rightarrow> state \<Rightarrow> error + state" where
  "dispatch e cur (Ld k rt m) s = exec_load cur k rt m s"
| "dispatch e cur (LdurVar rt v) s =
     ebind (dict_get (sym_table s) v) (\<lambda>a.
       Inr (s\<lparr>reg := (reg s)(rt \<mapsto> a), ld_cycle := cur, ld_dst := RegName rt\<rparr>))"
| "dispatch e cur (St k rt m) s = exec_store cur k rt m s"
| "dispatch e cur (MovImm rd imm) s =
     Inr (s\<lparr>reg := (reg s)(rd \<mapsto> imm), last_dst := RegName rd\<rparr>)"
| "dispatch e cur (MovReg rd rn) s0 =
     (let s = stall1 rn 2 cur 1 s0 in
      ebind (dict_get (reg s) rn) (\<lambda>a.
        Inr (s\<lparr>reg := (reg s)(rd \<mapsto> a), last_dst := RegName rd\<rparr>)))"
| "dispatch e cur (AsrImm rd rn imm) s = exec_shift_imm cur py_rshift rd rn imm s"
| "dispatch e cur (LsrImm rd rn imm) s =
     exec_shift_imm cur (\<lambda>a n. py_rshift (a AND mask64) n) rd rn imm s"
| "dispatch e cur (LsrReg rd rn rm) s =
     exec_rrr cur (\<lambda>a n. py_rshift (a AND mask64) n) rd rn rm s"
| "dispatch e cur (LslImm rd rn imm) s =
     exec_shift_imm cur (\<lambda>a n. ebind (py_lshift a n) (\<lambda>v. Inr (v AND mask64))) rd rn imm s"
| "dispatch e cur (LslReg rd rn rm) s =
     exec_rrr cur (\<lambda>a n. ebind (py_lshift a n) (\<lambda>v. Inr (v AND mask64))) rd rn rm s"
| "dispatch e cur (Alu op setf rd rn opnd) s = exec_alu cur op setf rd rn opnd s"
| "dispatch e cur (Mul rd rn rm) s =
     ebind (exec_rrr cur (\<lambda>a b. Inr (a * b)) rd rn rm s) (\<lambda>s'. Inr (add_cycles 4 s'))"
| "dispatch e cur (Udiv rd rn rm) s = exec_rrr cur py_floordiv rd rn rm s"
| "dispatch e cur (Sdiv rd rn rm) s = exec_rrr cur py_floordiv rd rn rm s"
| "dispatch e cur (Cmp rn opnd) s = exec_cmp cur rn opnd s"
| "dispatch e cur (Cbnz rn l) s = exec_cb cur (\<lambda>v. v \<noteq> 0) rn l s"
| "dispatch e cur (Cbz rn l) s = exec_cb cur (\<lambda>v. v = 0) rn l s"
| "dispatch e cur (B l) s = (if mentions_register l then Inl TakesRegisters else jump l s)"
| "dispatch e cur (Bcond c l) s = exec_bcond cur c l s"
| "dispatch e cur (Bl l) s = exec_bl e cur l s"
| "dispatch e cur BrLr s = exec_br_lr s"
| "dispatch e cur Svc0 s = exec_svc e s"
| "dispatch e cur Unsupported s = Inl UnsupportedInstruction"

definition execute :: "env \<Rightarrow> instr \<Rightarrow> state \<Rightarrow> error + state" where
  "execute e i s =
     (let current_cycle = cycle_count s
      in dispatch e current_cycle i
           (s\<lparr>cycle_count := cycle_count s + 1,
              execute_count := execute_count s + 1,
              last_dst := PyNone\<rparr>))"

section \<open>The loop of run\<close>

text \<open>
  One pass of \<open>while pc < len(asm)\<close>, entered with \<open>pc < len(asm)\<close>: the recursion
  probe, the three stack checks, then the label test and the instruction. The second
  component is the local set \<open>recursed_labels\<close>.
\<close>

definition stack_checks :: "state \<Rightarrow> error + unit" where
  "stack_checks s =
     ebind (dict_get (reg s) SP) (\<lambda>sp.
       if sp < 0 then Inl StackOverflow
       else if sp > STACK_SIZE then Inl StackUnderflow
       else if (sp + 1) mod 16 \<noteq> 0 then Inl AlignmentError
       else Inr ())"

definition probe_recursion :: "line \<Rightarrow> state \<Rightarrow> string set \<Rightarrow> error + string set" where
  "probe_recursion ln s recursed =
     (case ln of
        Code (Bl l) \<Rightarrow>
          ebind (dict_get (reg s) LR) (\<lambda>lr.
            Inr (if pc s = lr then insert l recursed else recursed))
      | _ \<Rightarrow> Inr recursed)"

definition run_iteration :: "env \<Rightarrow> state \<times> string set \<Rightarrow> error + state \<times> string set" where
  "run_iteration e c =
     (let s = fst c in
      ebind (index_list (asm s) (pc s)) (\<lambda>ln.
      ebind (probe_recursion ln s (snd c)) (\<lambda>recursed.
      ebind (stack_checks s) (\<lambda>u.
        case ln of
          Label l \<Rightarrow>
            ebind (dict_get (label_hit_counts s) l) (\<lambda>n.
              Inr (s\<lparr>pc := pc s + 1,
                     label_hit_counts := (label_hit_counts s)(l \<mapsto> n + 1)\<rparr>, recursed))
        | Code i \<Rightarrow>
            ebind (execute e i s) (\<lambda>s'.
              Inr (s'\<lparr>reg := (reg s')(XZR \<mapsto> 0), pc := pc s' + 1\<rparr>, recursed))))))"

section \<open>parse\<close>

text \<open>
  \<open>parse\<close> strips comments, follows the section switches and splits each data line at
  its directive. A value of \<open>directive\<close> is one line after that lexical work: the
  directive it matches with the name and the operands it extracts, numbers already
  converted by \<open>int\<close>. For \<open>.space\<close> and \<open>=\<close> the operand is first looked up as a
  symbol, so it is kept as text, together with what \<open>int\<close> makes of it (\<open>None\<close> when
  \<open>int\<close> raises).
\<close>

datatype directive =
    Asciz string string                 \<comment> \<open>\<open>name:.asciz "chars"\<close>, escapes replaced\<close>
  | Space string string "int option"    \<comment> \<open>\<open>name:.space n-or-name\<close>\<close>
  | Dword string "int list"             \<comment> \<open>\<open>name:.dword v1,v2,..\<close>\<close>
  | Word string "int list"
  | Hword string "int list"
  | Byte string "int list"
  | LenOf string string                 \<comment> \<open>\<open>len=.-name\<close>\<close>
  | Assign string string "int option"   \<comment> \<open>\<open>name=value\<close>\<close>
  | CodeLine line                       \<comment> \<open>a line of the code section\<close>

text \<open>
  The loop over the numbers of \<open>.dword\<close>, \<open>.word\<close>, \<open>.hword\<close> and \<open>.byte\<close>, of \<open>k\<close> bytes
  each: \<open>signed = not (0 <= n <= 255 ** k)\<close>, then \<open>mem.extend(n.to_bytes(k, ..))\<close>.
\<close>

definition number_signed :: "nat \<Rightarrow> int \<Rightarrow> bool" where
  "number_signed k n = (\<not> (0 \<le> n \<and> n \<le> 255 ^ k))"

fun emit_numbers :: "nat \<Rightarrow> int list \<Rightarrow> byte list \<Rightarrow> error + byte list" where
  "emit_numbers k [] m = Inr m"
| "emit_numbers k (n # ns) m =
     ebind (to_bytes n k (number_signed k n)) (\<lambda>bs. emit_numbers k ns (m @ bs))"

definition numeric_directive ::
    "nat \<Rightarrow> int \<Rightarrow> string \<Rightarrow> int list \<Rightarrow> state \<times> int \<Rightarrow> error + state \<times> int" where
  "numeric_directive k ty name numbers c =
     (let s = fst c; index = snd c; size = int (length numbers) * int k in
      ebind (emit_numbers k numbers (mem s)) (\<lambda>m.
        Inr (s\<lparr>mem := m,
               sym_table := (sym_table s)(name \<mapsto> index,
                                          name @ ''_SIZE_'' \<mapsto> size,
                                          name @ ''_TYPE_'' \<mapsto> ty)\<rparr>,
             index + size)))"

text \<open>\<open>sym_table[t] if t in sym_table else int(t)\<close>\<close>

definition symbol_or_int :: "state \<Rightarrow> string \<Rightarrow> int option \<Rightarrow> error + int" where
  "symbol_or_int s t lit =
     (case sym_table s t of
        Some v \<Rightarrow> Inr v
      | None \<Rightarrow> (case lit of None \<Rightarrow> Inl InvalidLiteral | Some n \<Rightarrow> Inr n))"

fun parse_line :: "directive \<Rightarrow> state \<times> int \<Rightarrow> error + state \<times> int" where
  "parse_line (Asciz name chars) (s, index) =
     ebind (encode_ascii chars) (\<lambda>bs.
       Inr (s\<lparr>sym_table := (sym_table s)(name \<mapsto> index,
                                          name @ ''_SIZE_'' \<mapsto> int (length chars),
                                          name @ ''_TYPE_'' \<mapsto> 0),
              mem := mem s @ bs\<rparr>,
            index + int (length chars)))"
| "parse_line (Space name t lit) (s, index) =
     ebind (symbol_or_int s t lit) (\<lambda>size.
       Inr (s\<lparr>mem := mem s @ replicate (nat size) 0,
              sym_table := (sym_table s)(name \<mapsto> index,
                                         name @ ''_TYPE_'' \<mapsto> 2,
                                         name @ ''_SIZE_'' \<mapsto> size)\<rparr>,
            index + size))"
| "parse_line (Dword name numbers) c = numeric_directive 8 1 name numbers c"
| "parse_line (Word name numbers) c = numeric_directive 4 3 name numbers c"
| "parse_line (Hword name numbers) c = numeric_directive 2 4 name numbers c"
| "parse_line (Byte name numbers) c = numeric_directive 1 5 name numbers c"
| "parse_line (LenOf len name) (s, index) =
     (if sym_table s name = None then Inl KeyError
      else ebind (dict_get (sym_table s) (name @ ''_SIZE_'')) (\<lambda>size.
             Inr (s\<lparr>sym_table := (sym_table s)(len \<mapsto> size)\<rparr>, index)))"
| "parse_line (Assign name t lit) (s, index) =
     ebind (symbol_or_int s t lit) (\<lambda>v.
       Inr (s\<lparr>sym_table := (sym_table s)(name \<mapsto> v)\<rparr>, index))"
| "parse_line (CodeLine ln) (s, index) = Inr (s\<lparr>asm := asm s @ [ln]\<rparr>, index)"

fun parse_lines :: "directive list \<Rightarrow> state \<times> int \<Rightarrow> error + state \<times> int" where
  "parse_lines [] c = Inr c"
| "parse_lines (d # ds) c = ebind (parse_line d c) (parse_lines ds)"

text \<open>
  \<open>parse\<close>: the stack is allocated first and \<open>sp\<close> set to its last byte, the lines are
  worked through with \<open>index\<close> the next free address, and the break is set to \<open>index\<close>,
  which the final assertion compares with the length of the memory.
\<close>

definition parse :: "directive list \<Rightarrow> state \<Rightarrow> error + state" where
  "parse ds s0 =
     (let s1 = s0\<lparr>mem := mem s0 @ replicate (nat STACK_SIZE) 0\<rparr>;
          s2 = s1\<lparr>reg := (reg s1)(SP \<mapsto> int (length (mem s1)) - 1)\<rparr>;
          index = int (length (mem s2))
      in ebind (parse_lines ds (s2, index)) (\<lambda>c.
           let s3 = (fst c)\<lparr>original_break := snd c, brk := snd c\<rparr>
           in if brk s3 = int (length (mem s3)) then Inr s3 else Inl AssertionError))"

section \<open>Observations and concrete inputs\<close>

text \<open>What a run that did not raise left in a field or in a register.\<close>

definition on_success :: "(state \<Rightarrow> 'a) \<Rightarrow> error + state \<Rightarrow> 'a option" where
  "on_success f r = (case r of Inl e \<Rightarrow> None | Inr s \<Rightarrow> Some (f s))"

definition reg_after :: "regname \<Rightarrow> error + state \<Rightarrow> int option" where
  "reg_after r res = (case res of Inl e \<Rightarrow> None | Inr s \<Rightarrow> reg s r)"

text \<open>A host that registers no callables; its \<open>os.urandom\<close> answers with zeros.\<close>

definition no_host :: env where
  "no_host = \<lparr>host_call = (\<lambda>l s. Inl HostError), urandom = (\<lambda>n. replicate n 0)\<rparr>"

text \<open>A host whose callables return without touching the state.\<close>

definition idle_host :: env where
  "idle_host = \<lparr>host_call = (\<lambda>l s. Inr s), urandom = (\<lambda>n. replicate n 0)\<rparr>"

text \<open>A host whose callables invert both flags, and a state that links the label \<open>f\<close>.\<close>

definition flip_host :: env where
  "flip_host =
     \<lparr>host_call = (\<lambda>l s. Inr (s\<lparr>n_flag := \<not> n_flag s, z_flag := \<not> z_flag s\<rparr>)),
       urandom = (\<lambda>n. replicate n 0)\<rparr>"

definition linked_state :: state where
  "linked_state = initial_state\<lparr>linked_labels := {''f''}\<rparr>"

text \<open>
  The flag writers named by the specification, \<open>cmp\<close> and the \<open>s\<close>-suffixed forms, and
  the result the specification wants the flags to describe: \<open>reg[rn]\<close> minus the second
  operand for \<open>cmp\<close>, the value of the operation for the others, both taken from the
  state before the instruction.
\<close>

fun flag_writer :: "instr \<Rightarrow> bool" where
  "flag_writer (Cmp rn opnd) = True"
| "flag_writer (Alu op setf rd rn opnd) = setf"
| "flag_writer i = False"

text \<open>
  \<open>cmp rn,sp\<close> is the one flag writer the source refuses (by an assertion). \<open>bl\<close> into a
  linked label is the one instruction that runs a host callable.
\<close>

fun cmp_with_sp :: "instr \<Rightarrow> bool" where
  "cmp_with_sp (Cmp rn (Reg SP)) = True"
| "cmp_with_sp i = False"

fun calls_host :: "instr \<Rightarrow> state \<Rightarrow> bool" where
  "calls_host (Bl l) s = (l \<in> linked_labels s)"
| "calls_host i s = False"

fun host_label :: "instr \<Rightarrow> string" where
  "host_label (Bl l) = l"
| "host_label i = []"

fun operand_of :: "operand \<Rightarrow> state \<Rightarrow> int option" where
  "operand_of (Imm imm) s = Some imm"
| "operand_of (Reg rm) s = reg s rm"

fun flag_result :: "instr \<Rightarrow> state \<Rightarrow> int option" where
  "flag_result (Cmp rn opnd) s =
     (case reg s rn of None \<Rightarrow> None
      | Some a \<Rightarrow> (case operand_of opnd s of None \<Rightarrow> None | Some b \<Rightarrow> Some (a - b)))"
| "flag_result (Alu op setf rd rn opnd) s =
     (case reg s rn of None \<Rightarrow> None
      | Some a \<Rightarrow> (case operand_of opnd s of None \<Rightarrow> None | Some b \<Rightarrow> Some (alu_apply op a b)))"
| "flag_result i s = None"

text \<open>
  The quotient truncated toward zero, as the specification describes \<open>udiv\<close> and
  \<open>sdiv\<close>, and a state with \<open>x1 = -7\<close>, \<open>x2 = 2\<close>.
\<close>

definition div_state :: state where
  "div_state = initial_state\<lparr>reg := initial_reg(X 1 \<mapsto> - 7, X 2 \<mapsto> 2)\<rparr>"

definition trunc_quotient :: "int \<Rightarrow> int \<Rightarrow> int" where
  "trunc_quotient a b = sgn a * sgn b * (\<bar>a\<bar> div \<bar>b\<bar>)"

text \<open>A program whose first instruction sets \<open>N\<close> and whose second branches on it.\<close>

definition branch_state :: state where
  "branch_state =
     initial_state\<lparr>asm := [Code (Cmp (X 0) (Imm 1)), Code (Bcond MI ''neg''), Label ''neg'']\<rparr>"

text \<open>The states \<open>parse\<close> leaves for the data section \<open>a:.dword v\<close> and for an empty one.\<close>

definition dword_state :: "int \<Rightarrow> error + state" where
  "dword_state v = parse [Dword ''a'' [v]] initial_state"

definition heap_state :: "error + state" where
  "heap_state = parse [] initial_state"

text \<open>
  The state after parsing an empty data section and \<open>mov x0,4097\<close>, \<open>mov x8,214\<close>, the
  counters left at their initial values.
\<close>

definition brk_state :: state where
  "brk_state =
     initial_state\<lparr>mem := replicate 4096 0,
                    reg := initial_reg(SP \<mapsto> 4095, X 8 \<mapsto> 214, X 0 \<mapsto> 4097),
                    original_break := 4096, brk := 4096\<rparr>"


definition label_state :: "int \<Rightarrow> state" where
  "label_state sp =
     initial_state\<lparr>asm := [Label ''loop''], reg := initial_reg(SP \<mapsto> sp),
                    label_hit_counts := [''loop'' \<mapsto> 0]\<rparr>"

section \<open>Properties\<close>

lemma ebind_Inr [simp]: "ebind (Inr x) f = f x"
  by (simp add: ebind_def)

lemma ebind_Inl [simp]: "ebind (Inl x) f = Inl x"
  by (simp add: ebind_def)

lemma dict_get_Some [simp]: "d k = Some v \<Longrightarrow> dict_get d k = Inr v"
  by (simp add: dict_get_def)

lemma dict_get_None [simp]: "d k = None \<Longrightarrow> dict_get d k = Inl KeyError"
  by (simp add: dict_get_def)

lemma on_success_Inr [simp]: "on_success f (Inr s) = Some (f s)"
  by (simp add: on_success_def)

lemma on_success_Inl [simp]: "on_success f (Inl e) = None"
  by (simp add: on_success_def)

lemma reg_after_Inr [simp]: "reg_after r (Inr s) = reg s r"
  by (simp add: reg_after_def)

lemma reg_after_Inl [simp]: "reg_after r (Inl e) = None"
  by (simp add: reg_after_def)

lemma reg_stall2 [simp]: "reg (stall2 rn rm k cur n s) = reg s"
  by (simp add: stall2_def add_cycles_def)
lemma reg_stall1 [simp]: "reg (stall1 rn k cur n s) = reg s"
  by (simp add: stall1_def add_cycles_def)

text \<open>
  Claim C10. \<open>reset\<close> zeroes every register (the keys stay), empties the memory, the
  instruction stream and the symbol table, clears both flags, \<open>pc\<close>, \<open>cycle_count\<close> and
  \<open>execute_count\<close>, puts the hazard scalars \<open>ld_cycle\<close>, \<open>ld_dst\<close>, \<open>flag_cycle\<close> and
  \<open>last_dst\<close> back to their initial \<open>-1\<close>, empties \<open>forbidden_instructions\<close> and
  \<open>linked_labels\<close>, clears \<open>require_recursion\<close>, \<open>forbid_recursion\<close> and \<open>forbid_loops\<close>,
  and leaves \<open>check_dead_code\<close>, \<open>recursive_labels\<close>, \<open>brk\<close> and \<open>original_break\<close> as they
  were.
\<close>

theorem reset_frame:
  "reg (reset s) = (\<lambda>r. map_option (\<lambda>v. 0) (reg s r)) \<and> mem (reset s) = [] \<and> asm (reset s) = []
   \<and> sym_table (reset s) = Map.empty \<and> \<not> n_flag (reset s) \<and> \<not> z_flag (reset s)
   \<and> pc (reset s) = 0 \<and> cycle_count (reset s) = 0 \<and> execute_count (reset s) = 0
   \<and> ld_cycle (reset s) = - 1 \<and> ld_dst (reset s) = Minus1
   \<and> flag_cycle (reset s) = - 1 \<and> last_dst (reset s) = Minus1
   \<and> forbidden_instructions (reset s) = {} \<and> linked_labels (reset s) = {}
   \<and> \<not> require_recursion (reset s) \<and> \<not> forbid_recursion (reset s) \<and> \<not> forbid_loops (reset s)
   \<and> check_dead_code (reset s) = check_dead_code s
   \<and> recursive_labels (reset s) = recursive_labels s
   \<and> brk (reset s) = brk s \<and> original_break (reset s) = original_break s"
  by (simp add: reset_def fun_eq_iff split: option.splits)

text \<open>
  Claim C3, as stated, fails: with \<open>reg[rn] = -7\<close> and \<open>reg[rm] = 2\<close> both \<open>sdiv\<close> and
  \<open>udiv\<close> leave \<open>-4\<close> in \<open>rd\<close>, while the quotient truncated toward zero is \<open>-3\<close>.
\<close>

theorem division_truncation_counterexample:
  "reg_after (X 0) (execute no_host (Sdiv (X 0) (X 1) (X 2)) div_state) = Some (- 4)
   \<and> reg_after (X 0) (execute no_host (Udiv (X 0) (X 1) (X 2)) div_state) = Some (- 4)
   \<and> trunc_quotient (- 7) 2 = - 3"
  by (simp add: execute_def exec_rrr_def div_state_def initial_state_def
      py_floordiv_def trunc_quotient_def)

text \<open>
  Claim C3, amended. For a divisor other than zero, \<open>udiv rd,rn,rm\<close> and \<open>sdiv rd,rn,rm\<close>
  both set \<open>reg[rd]\<close> to the floor quotient of \<open>reg[rn]\<close> by \<open>reg[rm]\<close> (\<open>div\<close> on \<^typ>\<open>int\<close>
  rounds toward minus infinity, as \<open>//\<close> does), and the two mnemonics compute the same
  function of the state.
\<close>

theorem division_floor:
  assumes "reg s rn = Some a" and "reg s rm = Some b" and "b \<noteq> 0"
  shows "reg_after rd (execute e (Sdiv rd rn rm) s) = Some (a div b)
       \<and> reg_after rd (execute e (Udiv rd rn rm) s) = Some (a div b)
       \<and> execute e (Udiv rd rn rm) s = execute e (Sdiv rd rn rm) s"
  using assms
  by (simp add: execute_def exec_rrr_def py_floordiv_def)

theorem division_floor_witness:
  "reg_after (X 0) (execute no_host (Sdiv (X 0) (X 1) (X 2)) div_state) = Some (- 7 div 2)
   \<and> reg_after (X 0) (execute no_host (Udiv (X 0) (X 1) (X 2)) div_state) = Some (- 7 div 2)
   \<and> execute no_host (Udiv (X 0) (X 1) (X 2)) div_state = execute no_host (Sdiv (X 0) (X 1) (X 2)) div_state"
proof -
  have a: "reg div_state (X 1) = Some (- 7)" and b: "reg div_state (X 2) = Some 2"
    by (simp_all add: div_state_def)
  show ?thesis using division_floor [OF a b, of "X 0" no_host] by simp
qed

lemma flag_use_penalty_except_mi:
  assumes "c \<noteq> MI" and "\<not> mentions_register l"
    and "cycle_count s - flag_cycle s \<le> 1"
    and "index_of (asm s) (Label l) = Inr t"
  shows "on_success cycle_count (execute e (Bcond c l) s)
           = Some (cycle_count s + 2 + (if cond_holds c s then 1 else 0))"
  using assms
  by (cases c) (simp_all add: execute_def exec_bcond_def jump_def add_cycles_def Let_def)

lemma flag_use_penalty_missing_for_mi:
  assumes "\<not> mentions_register l" and "index_of (asm s) (Label l) = Inr t"
  shows "on_success cycle_count (execute e (Bcond MI l) s)
           = Some (cycle_count s + 1 + (if n_flag s then 1 else 0))"
  using assms
  by (simp add: execute_def exec_bcond_def jump_def add_cycles_def Let_def)

text \<open>
  Claim C5 at \<open>b.mi\<close>. Right after \<open>cmp x0,1\<close> with \<open>x0 = 0\<close> (so \<open>N\<close> is set and
  \<open>current_cycle - flag_cycle = 1\<close>) a taken \<open>b.mi\<close> brings the cycle count to 3: the
  instruction's own cycle and the taken-branch cycle, no flag-use cycle. \<open>b.lt\<close>, which
  tests the same flag, brings it to 4.
\<close>

theorem bmi_skips_flag_penalty:
  "on_success cycle_count
     (ebind (execute no_host (Cmp (X 0) (Imm 1)) branch_state)
        (execute no_host (Bcond MI ''neg''))) = Some 3
   \<and> on_success cycle_count
     (ebind (execute no_host (Cmp (X 0) (Imm 1)) branch_state)
        (execute no_host (Bcond LT ''neg''))) = Some 4"
  by (simp add: execute_def exec_cmp_def exec_bcond_def branch_state_def initial_state_def
      initial_reg_def stall1_def jump_def add_cycles_def mentions_register_def is_xreg_def)

lemma le_value_append: "le_value (xs @ ys) = le_value xs + 256 ^ length xs * le_value ys"
  by (induction xs) (simp_all add: algebra_simps)

lemma length_le_bytes [simp]: "length (le_bytes k n) = k"
  by (simp add: le_bytes_def)

lemma le_bytes_Suc: "le_bytes (Suc k) n = le_bytes k n @ [word_of_int (n div 256 ^ k)]"
  by (simp add: le_bytes_def)

lemma uint_byte: "uint (word_of_int x :: byte) = x mod 256"
  by (simp add: uint_word_of_int take_bit_eq_mod)

lemma le_value_le_bytes: "le_value (le_bytes k n) = n mod 256 ^ k"
proof (induction k)
  case 0
  show ?case by (simp add: le_bytes_def)
next
  case (Suc k)
  have "le_value (le_bytes (Suc k) n) = n mod 256 ^ k + 256 ^ k * (n div 256 ^ k mod 256)"
    by (simp add: le_bytes_Suc le_value_append Suc uint_byte)
  also have "\<dots> = n mod (256 ^ k * 256)"
    using zmod_zmult2_eq [of 256 n "256 ^ k"] by (simp add: add.commute)
  finally show ?case by (simp add: mult.commute)
qed

lemma pow_facts: "(256::int) ^ 8 = 18446744073709551616" "(255::int) ^ 8 = 17878103347812890625"
  by simp_all

lemma from_bytes_unsigned: "0 \<le> v \<Longrightarrow> v < 2 ^ 64 \<Longrightarrow> from_bytes (le_bytes 8 v) False = v"
  by (simp add: from_bytes_def le_value_le_bytes)

lemma from_bytes_signed_neg:
  assumes "- (2 ^ 63) \<le> v" and "v < 0"
  shows "from_bytes (le_bytes 8 v) True = v"
proof -
  have "(v + 2 ^ 64) mod 2 ^ 64 = v + 2 ^ 64"
    using assms by (intro mod_pos_pos_trivial) simp_all
  then have m: "v mod 2 ^ 64 = v + 2 ^ 64"
    by simp
  have ne: "le_bytes 8 v \<noteq> []"
    using length_le_bytes [of 8 v] by (metis length_0_conv zero_neq_numeral)
  show ?thesis using assms ne m by (simp add: from_bytes_def le_value_le_bytes Let_def)
qed

lemma dword_value:
  assumes "- (2 ^ 63) \<le> v" and "v \<le> 255 ^ 8"
  shows "to_bytes v 8 (number_signed 8 v) = Inr (le_bytes 8 v)"
    and "number_signed 8 v = (v < 0)"
    and "from_bytes (le_bytes 8 v) (number_signed 8 v) = v"
proof -
  show s: "number_signed 8 v = (v < 0)"
    using assms by (auto simp add: number_signed_def)
  show "to_bytes v 8 (number_signed 8 v) = Inr (le_bytes 8 v)"
    using assms by (simp add: s to_bytes_def)
  show "from_bytes (le_bytes 8 v) (number_signed 8 v) = v"
  proof (cases "v < 0")
    case True
    then show ?thesis using assms s by (simp add: from_bytes_signed_neg)
  next
    case False
    then show ?thesis using assms s by (simp add: from_bytes_unsigned)
  qed
qed

text \<open>
  Claim C6 at \<open>255^8 + 1\<close>. The value is below \<open>256^8\<close>, so it fits 8 unsigned bytes and
  \<open>to_bytes\<close> encodes it when asked for the unsigned encoding; the parser's test
  \<open>0 <= n <= 255 ** 8\<close> takes it for signed, and the declaration \<open>a:.dword 255^8+1\<close>
  raises instead of appending 8 bytes. The bound \<open>.byte\<close> uses, 255, is the largest
  unsigned byte.
\<close>

theorem dword_unsigned_value_rejected:
  "0 \<le> (17878103347812890626::int) \<and> (17878103347812890626::int) < 256 ^ 8
   \<and> to_bytes 17878103347812890626 8 False = Inr (le_bytes 8 17878103347812890626)
   \<and> number_signed 8 17878103347812890626
   \<and> emit_numbers 8 [17878103347812890626] [] = Inl OverflowError
   \<and> dword_state 17878103347812890626 = Inl OverflowError
   \<and> \<not> number_signed 1 255"
  by (simp add: number_signed_def to_bytes_def dword_state_def parse_def numeric_directive_def
      Let_def)

text \<open>
  What the parser does with the values from \<open>-2^63\<close> up to its threshold: 8
  little-endian bytes per value, in order, unsigned for \<open>v \<ge> 0\<close> and two's complement
  for \<open>v < 0\<close>, so that decoding with the same signedness gives \<open>v\<close> back.
\<close>

lemma dword_encoding:
  assumes "list_all (\<lambda>v. - (2 ^ 63) \<le> v \<and> v \<le> 255 ^ 8) vs"
  shows "emit_numbers 8 vs m = Inr (m @ concat (map (le_bytes 8) vs))
       \<and> list_all (\<lambda>v. length (le_bytes 8 v) = 8 \<and> number_signed 8 v = (v < 0)
                      \<and> from_bytes (le_bytes 8 v) (number_signed 8 v) = v) vs"
  using assms
proof (induction vs arbitrary: m)
  case Nil
  show ?case by simp
next
  case (Cons v vs)
  from Cons.prems have r: "- (2 ^ 63) \<le> v" "v \<le> 255 ^ 8"
    and rest: "list_all (\<lambda>v. - (2 ^ 63) \<le> v \<and> v \<le> 255 ^ 8) vs"
    by simp_all
  from Cons.IH [OF rest, of "m @ le_bytes 8 v"] dword_value [OF r]
  show ?case by simp
qed

lemma py_slice_window:
  "py_slice (xs @ ys @ zs) (int (length xs)) (int (length xs) + int (length ys)) = ys"
  by (simp add: py_slice_def slice_bound_def Let_def nat_add_distrib)

lemma mem_mem_stall [simp]: "mem (mem_stall p m cur s) = mem s"
  by (simp add: mem_stall_def stall1_def stall2_def add_cycles_def Let_def
      split: penalty.splits amode.splits)

lemma reg_mem_stall [simp]: "reg (mem_stall p m cur s) = reg s"
  by (simp add: mem_stall_def stall1_def stall2_def add_cycles_def Let_def
      split: penalty.splits amode.splits)

lemma parse_dword:
  assumes "- (2 ^ 63) \<le> v" and "v \<le> 255 ^ 8"
  shows "parse [Dword a [v]] s0 =
     Inr (s0\<lparr>mem := mem s0 @ replicate 4096 0 @ le_bytes 8 v,
             reg := (reg s0)(SP \<mapsto> int (length (mem s0)) + 4095),
             sym_table := (sym_table s0)(a \<mapsto> int (length (mem s0)) + 4096,
                                          a @ ''_SIZE_'' \<mapsto> 8, a @ ''_TYPE_'' \<mapsto> 1),
             original_break := int (length (mem s0)) + 4104,
             brk := int (length (mem s0)) + 4104\<rparr>)"
  using dword_value(1) [OF assms]
  by (cases s0) (simp add: parse_def numeric_directive_def STACK_SIZE_def Let_def add.commute)

text \<open>
  Claim C2, as stated, fails for a negative value: after \<open>a:.dword -1\<close>, the program
  \<open>ldur x1,=a\<close>, \<open>ldur x0,[x1]\<close> leaves \<open>2^64 - 1\<close> in \<open>x0\<close>, not \<open>-1\<close>.
\<close>

theorem dword_ldur_counterexample:
  "reg_after (X 0)
     (ebind (ebind (dword_state (- 1)) (execute no_host (LdurVar (X 1) ''a'')))
        (execute no_host (Ld LDUR (X 0) (Rn (X 1))))) = Some 18446744073709551615"
proof -
  have r: "- (2 ^ 63) \<le> (- 1::int)" "(- 1::int) \<le> 255 ^ 8" by simp_all
  have w: "py_slice (replicate 4096 0 @ le_bytes 8 (- 1)) 4096 4104 = le_bytes 8 (- 1)"
    using py_slice_window [of "replicate 4096 0" "le_bytes 8 (- 1)" "[]"] by simp
  show ?thesis
    by (simp add: dword_state_def parse_dword [OF r] initial_state_def execute_def
        exec_load_def out_of_bounds_def w from_bytes_def le_value_le_bytes)
qed

text \<open>
  Claim C2, amended. For every \<open>v\<close> in the signed 64-bit range, declaring \<open>a:.dword v\<close>
  and then executing \<open>ldur rt,[rn]\<close> with \<open>reg[rn]\<close> the address of \<open>a\<close> leaves
  \<open>reg[rt] = v\<close> when \<open>v \<ge> 0\<close> and \<open>reg[rt] = v + 2^64\<close> when \<open>v < 0\<close>: \<open>ldur\<close> decodes the
  8 bytes as unsigned.
\<close>

theorem dword_ldur_roundtrip:
  assumes "- (2 ^ 63) \<le> v" and "v < 2 ^ 63"
  shows "\<exists>s1 addr. parse [Dword a [v]] s0 = Inr s1 \<and> sym_table s1 a = Some addr
           \<and> reg_after rt (execute e (Ld LDUR rt (Rn rn)) (s1\<lparr>reg := (reg s1)(rn \<mapsto> addr)\<rparr>))
               = Some (if 0 \<le> v then v else v + 2 ^ 64)"
proof -
  let ?n = "int (length (mem s0))"
  have r: "- (2 ^ 63) \<le> v" "v \<le> 255 ^ 8" using assms by simp_all
  have w: "py_slice (mem s0 @ replicate 4096 0 @ le_bytes 8 v) (?n + 4096) (4104 + ?n)
             = le_bytes 8 v"
    using py_slice_window [of "mem s0 @ replicate 4096 0" "le_bytes 8 v" "[]"]
    by (simp add: add.assoc add.commute)
  have "(v + 2 ^ 64) mod 2 ^ 64 = v + 2 ^ 64" if "v < 0"
    using that assms by (intro mod_pos_pos_trivial) simp_all
  then have m: "0 \<le> v \<Longrightarrow> v mod 18446744073709551616 = v"
      "\<not> 0 \<le> v \<Longrightarrow> v mod 18446744073709551616 = v + 18446744073709551616"
    using assms by simp_all
  show ?thesis
  proof (cases "rn = SP")
    case True
    then show ?thesis
      by (simp add: parse_dword [OF r] execute_def exec_load_def out_of_bounds_def w
          from_bytes_def le_value_le_bytes m Let_def)
  next
    case False
    then show ?thesis
      by (simp add: parse_dword [OF r] execute_def exec_load_def out_of_bounds_def w
          from_bytes_def le_value_le_bytes m Let_def)
  qed
qed

theorem dword_ldur_roundtrip_witness:
  "\<exists>s1 addr. parse [Dword ''a'' [- 5]] initial_state = Inr s1 \<and> sym_table s1 ''a'' = Some addr
     \<and> reg_after (X 0) (execute no_host (Ld LDUR (X 0) (Rn (X 1)))
                            (s1\<lparr>reg := (reg s1)(X 1 \<mapsto> addr)\<rparr>))
         = Some 18446744073709551611"
  using dword_ldur_roundtrip [of "- 5" "''a''" initial_state "X 0" no_host "X 1"] by simp

lemma le_bytes_8_1: "le_bytes 8 1 = [1, 0, 0, 0, 0, 0, 0, 0]"
  by (simp add: le_bytes_def upt_rec)

lemma dword_state_1:
  "dword_state 1 =
     Inr (initial_state\<lparr>mem := replicate 4096 0 @ [1, 0, 0, 0, 0, 0, 0, 0],
             reg := initial_reg(SP \<mapsto> 4095),
             sym_table := [''a'' \<mapsto> 4096, ''a_SIZE_'' \<mapsto> 8, ''a_TYPE_'' \<mapsto> 1],
             original_break := 4104, brk := 4104\<rparr>)"
proof -
  have r: "- (2 ^ 63) \<le> (1::int)" "(1::int) \<le> 255 ^ 8" by simp_all
  show ?thesis
    by (simp add: dword_state_def parse_dword [OF r] le_bytes_8_1 initial_state_def)
qed

text \<open>
  Claim C1 at the forms whose range check is written with \<open>len(mem) - 2\<close> although they
  move 4 bytes. After \<open>a:.dword 1\<close> the memory has 4104 bytes and \<open>a\<close> is at 4096. With
  \<open>x1 = 4096\<close>, \<open>ldursw x0,[x1,5]\<close> reads at \<open>4101 = len(mem) - 4 + 1\<close> and succeeds,
  and \<open>sturw x0,[x1,6]\<close> writes at 4102 and succeeds, leaving a memory of 4106 bytes.
\<close>

theorem word_access_past_end:
  "on_success (length \<circ> mem) (dword_state 1) = Some 4104
   \<and> reg_after (X 0)
       (ebind (ebind (dword_state 1) (execute no_host (LdurVar (X 1) ''a'')))
          (execute no_host (Ld LDURSW (X 0) (RnImm (X 1) 5)))) = Some 0
   \<and> on_success (length \<circ> mem)
       (ebind (ebind (dword_state 1) (execute no_host (LdurVar (X 1) ''a'')))
          (execute no_host (St STURW (X 0) (RnImm (X 1) 6)))) = Some 4106"
  by (simp add: dword_state_1 initial_state_def execute_def exec_load_def exec_store_def
      out_of_bounds_def mem_stall_def stall1_def py_slice_def slice_assign_def slice_bound_def
      from_bytes_def to_bytes_def initial_reg_def add_cycles_def Let_def)

lemma effective_address_stall [simp]:
  "effective_address m (mem_stall p m' cur s) = effective_address m s"
  by (cases m) simp_all

lemma load_succeeds_iff:
  assumes "effective_address m s = Inr addr" and "reg s SP = Some sp"
  shows "(\<exists>s'. execute e (Ld k rt m) s = Inr s')
           \<longleftrightarrow> sp \<le> addr \<and> addr + ld_bound k m \<le> int (length (mem s))"
proof -
  have "effective_address m (s\<lparr>cycle_count := cycle_count s + 1,
          execute_count := execute_count s + 1, last_dst := PyNone\<rparr>) = Inr addr"
    using assms(1) by (cases m) simp_all
  then show ?thesis
    using assms(2) by (auto simp add: execute_def exec_load_def out_of_bounds_def Let_def)
qed

text \<open>
  Claim C4, as stated, fails in the value returned: on a fresh heap (\<open>original_break\<close> is
  4096 after parsing an empty data section) \<open>brk(4097)\<close> leaves 4097 in \<open>x0\<close>, not
  \<open>original_break + 4096 = 8192\<close>.
\<close>

theorem brk_return_counterexample:
  "on_success original_break heap_state = Some 4096
   \<and> reg_after (X 0)
       (ebind (ebind (ebind heap_state (execute no_host (MovImm (X 0) 4097)))
                 (execute no_host (MovImm (X 8) 214)))
          (execute no_host Svc0)) = Some 4097"
  by (simp add: heap_state_def parse_def STACK_SIZE_def HEAP_SIZE_def initial_state_def
      execute_def exec_svc_def sys_brk_def Let_def)

text \<open>
  Claim C4, amended. On a heap that is still empty (\<open>len(mem) = original_break\<close>) the
  \<open>brk\<close> system call with \<open>x0 = original_break + 1\<close> grows the memory by exactly 4096
  bytes, sets \<open>brk\<close> to the requested \<open>original_break + 1\<close> and leaves that value in
  \<open>x0\<close>; a subsequent call with \<open>x0 = original_break\<close> shrinks the memory back to what
  it was and returns \<open>original_break\<close> in \<open>x0\<close>.
\<close>

theorem brk_grow_shrink:
  assumes "reg s (X 8) = Some 214"
    and "reg s (X 0) = Some (original_break s + 1)"
    and "int (length (mem s)) = original_break s"
  shows "\<exists>s1. execute e Svc0 s = Inr s1
           \<and> length (mem s1) = length (mem s) + 4096
           \<and> reg s1 (X 0) = Some (original_break s + 1)
           \<and> brk s1 = original_break s + 1
           \<and> (\<exists>s2. execute e Svc0 (s1\<lparr>reg := (reg s1)(X 0 \<mapsto> original_break s)\<rparr>) = Inr s2
                  \<and> mem s2 = mem s
                  \<and> reg s2 (X 0) = Some (original_break s)
                  \<and> brk s2 = original_break s)"
proof -
  have ob: "slice_bound (length (mem s) + 4096) (original_break s) = length (mem s)"
    using assms(3) by (simp add: slice_bound_def)
  show ?thesis
    using assms ob
    by (simp add: execute_def exec_svc_def sys_brk_def HEAP_SIZE_def Let_def py_slice_def
        slice_bound_def)
qed

theorem brk_grow_shrink_witness:
  "\<exists>s1. execute no_host Svc0 brk_state = Inr s1
     \<and> length (mem s1) = length (mem brk_state) + 4096
     \<and> reg s1 (X 0) = Some (original_break brk_state + 1)
     \<and> brk s1 = original_break brk_state + 1
     \<and> (\<exists>s2. execute no_host Svc0 (s1\<lparr>reg := (reg s1)(X 0 \<mapsto> original_break brk_state)\<rparr>) = Inr s2
            \<and> mem s2 = mem brk_state
            \<and> reg s2 (X 0) = Some (original_break brk_state)
            \<and> brk s2 = original_break brk_state)"
proof -
  have a: "reg brk_state (X 8) = Some 214"
    "reg brk_state (X 0) = Some (original_break brk_state + 1)"
    "int (length (mem brk_state)) = original_break brk_state"
    by (simp_all add: brk_state_def)
  show ?thesis by (rule brk_grow_shrink [OF a])
qed



text \<open>
  Claim C9, as stated, fails: the stack checks come before the label test, so a bare
  label fetched with \<open>sp = -1\<close> stops the run with a stack overflow.
\<close>

theorem label_stack_check_counterexample:
  "run_iteration no_host (label_state (- 1), {}) = Inl StackOverflow"
  by (simp add: run_iteration_def label_state_def initial_state_def index_list_def
      probe_recursion_def stack_checks_def)

text \<open>
  Claim C9, amended. The stack checks \<open>sp \<ge> 0\<close>, \<open>sp \<le> STACK_SIZE\<close> and
  \<open>(sp+1) mod 16 = 0\<close> are applied to every fetched line, bare labels included, before
  the label test; when the fetched line is a bare label and the checks pass, the loop
  increments that label's hit count and advances the program counter, and nothing else
  changes.
\<close>

theorem label_line_iteration:
  assumes "index_list (asm s) (pc s) = Inr (Label l)"
    and "reg s SP = Some sp"
    and "label_hit_counts s l = Some n"
  shows "run_iteration e (s, recursed) =
     (if sp < 0 then Inl StackOverflow
      else if sp > 4096 then Inl StackUnderflow
      else if (sp + 1) mod 16 \<noteq> 0 then Inl AlignmentError
      else Inr (s\<lparr>pc := pc s + 1, label_hit_counts := (label_hit_counts s)(l \<mapsto> n + 1)\<rparr>,
                recursed))"
  using assms
  by (simp add: run_iteration_def probe_recursion_def stack_checks_def STACK_SIZE_def)

theorem label_line_iteration_witness:
  "run_iteration no_host (label_state 4095, {}) =
     Inr ((label_state 4095)\<lparr>pc := 1, label_hit_counts := [''loop'' \<mapsto> 1]\<rparr>, {})"
proof -
  have a: "index_list (asm (label_state 4095)) (pc (label_state 4095)) = Inr (Label ''loop'')"
    "reg (label_state 4095) SP = Some 4095"
    "label_hit_counts (label_state 4095) ''loop'' = Some 0"
    by (simp_all add: label_state_def initial_state_def index_list_def)
  show ?thesis
    using label_line_iteration [OF a, of no_host "{}"]
    by (simp add: label_state_def initial_state_def)
qed

text \<open>The checks stop the pass for a code line in the same way.\<close>

lemma stack_checks_precede_every_line:
  assumes "index_list (asm s) (pc s) = Inr ln"
    and "probe_recursion ln s recursed = Inr recursed'"
    and "stack_checks s = Inl err"
  shows "run_iteration e (s, recursed) = Inl err"
  using assms by (simp add: run_iteration_def)

lemma ebind_eq_Inr: "ebind m f = Inr y \<longleftrightarrow> (\<exists>x. m = Inr x \<and> f x = Inr y)"
  by (cases m) simp_all

lemma dict_get_eq_Inr: "dict_get d k = Inr v \<longleftrightarrow> d k = Some v"
  by (simp add: dict_get_def split: option.splits)

lemma flags_add_cycles [simp]:
  "n_flag (add_cycles n s) = n_flag s" "z_flag (add_cycles n s) = z_flag s"
  by (simp_all add: add_cycles_def)

lemma flags_stall1 [simp]:
  "n_flag (stall1 rn k cur n s) = n_flag s" "z_flag (stall1 rn k cur n s) = z_flag s"
  by (simp_all add: stall1_def)

lemma flags_stall2 [simp]:
  "n_flag (stall2 rn rm k cur n s) = n_flag s" "z_flag (stall2 rn rm k cur n s) = z_flag s"
  by (simp_all add: stall2_def)

lemma flags_mem_stall [simp]:
  "n_flag (mem_stall p m cur s) = n_flag s" "z_flag (mem_stall p m cur s) = z_flag s"
  by (simp_all add: mem_stall_def Let_def split: penalty.splits amode.splits)

lemma flags_alu_stall [simp]:
  "n_flag (alu_stall op rn opnd cur s) = n_flag s" "z_flag (alu_stall op rn opnd cur s) = z_flag s"
  by (cases op; cases opnd; simp)+

lemma reg_alu_stall [simp]: "reg (alu_stall op rn opnd cur s) = reg s"
  by (cases op; cases opnd; simp)

lemma flags_flag_stall [simp]:
  "n_flag (flag_stall c cur s) = n_flag s" "z_flag (flag_stall c cur s) = z_flag s"
  by (cases c; simp)+

lemma operand_value_of: "operand_value opnd s = Inr b \<longleftrightarrow> operand_of opnd s = Some b"
  by (cases opnd) (auto simp add: dict_get_eq_Inr)

lemma operand_value_stall [simp]:
  "operand_value opnd (alu_stall op rn opnd' cur s) = operand_value opnd s"
  "operand_value opnd (stall1 rn k cur n s) = operand_value opnd s"
  "operand_value opnd (stall2 rn rm k cur n s) = operand_value opnd s"
  by (cases opnd; simp)+

lemma operand_of_stall [simp]:
  "operand_of opnd (alu_stall op rn opnd' cur s) = operand_of opnd s"
  "operand_of opnd (stall1 rn k cur n s) = operand_of opnd s"
  "operand_of opnd (stall2 rn rm k cur n s) = operand_of opnd s"
  by (cases opnd; simp)+

lemma jump_flags:
  "jump l s = Inr s' \<Longrightarrow> n_flag s' = n_flag s \<and> z_flag s' = z_flag s"
  by (auto simp add: jump_def ebind_eq_Inr)

lemma exec_load_flags:
  "exec_load cur k rt m s = Inr s' \<Longrightarrow> n_flag s' = n_flag s \<and> z_flag s' = z_flag s"
  by (auto simp add: exec_load_def Let_def ebind_eq_Inr split: if_splits)

lemma exec_store_flags:
  "exec_store cur k rt m s = Inr s' \<Longrightarrow> n_flag s' = n_flag s \<and> z_flag s' = z_flag s"
  by (auto simp add: exec_store_def Let_def ebind_eq_Inr split: if_splits)

lemma exec_rrr_flags:
  "exec_rrr cur f rd rn rm s = Inr s' \<Longrightarrow> n_flag s' = n_flag s \<and> z_flag s' = z_flag s"
  by (auto simp add: exec_rrr_def Let_def ebind_eq_Inr)

lemma exec_shift_imm_flags:
  "exec_shift_imm cur f rd rn imm s = Inr s' \<Longrightarrow> n_flag s' = n_flag s \<and> z_flag s' = z_flag s"
  by (auto simp add: exec_shift_imm_def Let_def ebind_eq_Inr)

lemma exec_cb_flags:
  "exec_cb cur taken rn l s = Inr s' \<Longrightarrow> n_flag s' = n_flag s \<and> z_flag s' = z_flag s"
  by (auto simp add: exec_cb_def Let_def ebind_eq_Inr dest: jump_flags split: if_splits)

lemma exec_bcond_flags:
  "exec_bcond cur c l s = Inr s' \<Longrightarrow> n_flag s' = n_flag s \<and> z_flag s' = z_flag s"
  by (auto simp add: exec_bcond_def Let_def dest!: jump_flags split: if_splits)

lemma exec_br_lr_flags:
  "exec_br_lr s = Inr s' \<Longrightarrow> n_flag s' = n_flag s \<and> z_flag s' = z_flag s"
  by (auto simp add: exec_br_lr_def ebind_eq_Inr split: if_splits)

lemma sys_write_flags:
  "sys_write s = Inr s' \<Longrightarrow> n_flag s' = n_flag s \<and> z_flag s' = z_flag s"
  by (auto simp add: sys_write_def ebind_eq_Inr split: if_splits)

lemma sys_read_flags:
  "sys_read s = Inr s' \<Longrightarrow> n_flag s' = n_flag s \<and> z_flag s' = z_flag s"
  by (cases "stdin s") (auto simp add: sys_read_def Let_def ebind_eq_Inr)

lemma sys_brk_flags:
  "sys_brk s = Inr s' \<Longrightarrow> n_flag s' = n_flag s \<and> z_flag s' = z_flag s"
  by (auto simp add: sys_brk_def Let_def ebind_eq_Inr split: if_splits)

lemma sys_getrandom_flags:
  "sys_getrandom e s = Inr s' \<Longrightarrow> n_flag s' = n_flag s \<and> z_flag s' = z_flag s"
  by (auto simp add: sys_getrandom_def ebind_eq_Inr split: if_splits)

lemma exec_svc_flags:
  assumes "exec_svc e s = Inr s'"
  shows "n_flag s' = n_flag s \<and> z_flag s' = z_flag s"
proof -
  from assms obtain syscall :: int where
    r: "(if syscall = 93 then Inr (s\<lparr>pc := int (length (asm s))\<rparr>)
         else if syscall = 64 then sys_write s
         else if syscall = 63 then sys_read s
         else if syscall = 214 then sys_brk s
         else if syscall = 278 then sys_getrandom e s
         else Inl UnsupportedSyscall) = Inr s'"
    unfolding exec_svc_def ebind_eq_Inr by blast
  then show ?thesis
    using sys_write_flags [of s s'] sys_read_flags [of s s'] sys_brk_flags [of s s']
      sys_getrandom_flags [of e s s']
    by (auto split: if_splits)
qed

lemma exec_bl_flags:
  assumes "exec_bl e cur l s = Inr s'"
  shows "if l \<in> linked_labels s
         then (\<exists>t t'. host_call e l t = Inr t' \<and> n_flag t = n_flag s \<and> z_flag t = z_flag s
                  \<and> n_flag s' = n_flag t' \<and> z_flag s' = z_flag t')
         else n_flag s' = n_flag s \<and> z_flag s' = z_flag s"
proof -
  define s1 where "s1 = (if cur - flag_cycle s \<le> 1 then add_cycles 1 s else s)"
  define s2 where "s2 = s1\<lparr>reg := (reg s1)(LR \<mapsto> pc s1)\<rparr>"
  define s3 where "s3 = (case label_hit_counts s2 l of
                    None \<Rightarrow> s2
                  | Some n \<Rightarrow> s2\<lparr>label_hit_counts := (label_hit_counts s2)(l \<mapsto> n + 1)\<rparr>)"
  have f3: "n_flag s3 = n_flag s \<and> z_flag s3 = z_flag s"
    by (simp add: s3_def s2_def s1_def split: option.splits)
  have l3: "linked_labels s3 = linked_labels s"
    by (simp add: s3_def s2_def s1_def add_cycles_def split: option.splits)
  have nr: "\<not> mentions_register l"
    using assms(1) by (simp add: exec_bl_def split: if_splits)
  then have "ebind (if l \<in> linked_labels s3 then host_call e l s3
                  else ebind (index_of (asm s3) (Label l)) (\<lambda>i. Inr (s3\<lparr>pc := i\<rparr>)))
             (\<lambda>s4. Inr (add_cycles 1 s4)) = Inr s'"
    using assms(1) unfolding exec_bl_def Let_def s3_def s2_def s1_def by simp
  then obtain s4 where
    r: "(if l \<in> linked_labels s3 then host_call e l s3
         else ebind (index_of (asm s3) (Label l)) (\<lambda>i. Inr (s3\<lparr>pc := i\<rparr>))) = Inr s4"
    and s': "s' = add_cycles 1 s4"
    unfolding ebind_eq_Inr by auto
  show ?thesis
  proof (cases "l \<in> linked_labels s")
    case True
    with r l3 have "host_call e l s3 = Inr s4" by simp
    with f3 s' have "host_call e l s3 = Inr s4 \<and> n_flag s3 = n_flag s \<and> z_flag s3 = z_flag s
        \<and> n_flag s' = n_flag s4 \<and> z_flag s' = z_flag s4"
      by simp
    with True show ?thesis by auto
  next
    case False
    with r l3 obtain i where "s4 = s3\<lparr>pc := i\<rparr>"
      by (auto simp add: ebind_eq_Inr)
    with f3 s' False show ?thesis by simp
  qed
qed

lemma exec_alu_flags:
  assumes "exec_alu cur op setf rd rn opnd s = Inr s'"
  shows "if setf
         then (\<exists>r. flag_result (Alu op setf rd rn opnd) s = Some r
                  \<and> n_flag s' = (r < 0) \<and> z_flag s' = (r = 0))
         else n_flag s' = n_flag s \<and> z_flag s' = z_flag s"
proof -
  let ?t = "alu_stall op rn opnd cur s"
  from assms obtain a b where a: "reg s rn = Some a" and b: "operand_of opnd s = Some b"
    and s': "s' = (if setf then set_flags (alu_apply op a b) cur (?t\<lparr>reg := (reg ?t)(rd \<mapsto> alu_apply op a b)\<rparr>)
                   else ?t\<lparr>reg := (reg ?t)(rd \<mapsto> alu_apply op a b)\<rparr>)\<lparr>last_dst := RegName rd\<rparr>"
    unfolding exec_alu_def Let_def ebind_eq_Inr dict_get_eq_Inr operand_value_of
    by (auto simp add: operand_value_of dict_get_eq_Inr)
  show ?thesis
  proof (cases setf)
    case True
    with a b s' show ?thesis by (simp add: set_flags_def)
  next
    case False
    with s' show ?thesis by simp
  qed
qed

lemma exec_cmp_flags:
  assumes "exec_cmp cur rn opnd s = Inr s'"
  shows "\<exists>r. flag_result (Cmp rn opnd) s = Some r \<and> n_flag s' = (r < 0) \<and> z_flag s' = (r = 0)"
  using assms
  by (cases opnd)
    (auto simp add: exec_cmp_def Let_def ebind_eq_Inr dict_get_eq_Inr split: if_splits)

lemma exec_alu_sets_flags:
  assumes "reg s rn = Some a" and "operand_of opnd s = Some b"
  shows "\<exists>s'. exec_alu cur op True rd rn opnd s = Inr s'
           \<and> n_flag s' = (alu_apply op a b < 0) \<and> z_flag s' = (alu_apply op a b = 0)"
proof -
  have "operand_value opnd s = Inr b"
    using assms(2) by (simp add: operand_value_of)
  then show ?thesis
    using assms(1) by (simp add: exec_alu_def Let_def set_flags_def)
qed

lemma exec_cmp_sets_flags:
  assumes "reg s rn = Some a" and "operand_of opnd s = Some b" and "opnd \<noteq> Reg SP"
  shows "\<exists>s'. exec_cmp cur rn opnd s = Inr s'
           \<and> n_flag s' = (a - b < 0) \<and> z_flag s' = (a - b = 0)"
proof -
  have "operand_value opnd (case opnd of Reg rm \<Rightarrow> stall2 rn rm 2 cur 1 s
                                        | Imm imm \<Rightarrow> stall1 rn 2 cur 1 s) = Inr b"
    using assms(2) by (cases opnd) (simp_all add: operand_value_of)
  moreover have "reg (case opnd of Reg rm \<Rightarrow> stall2 rn rm 2 cur 1 s
                                 | Imm imm \<Rightarrow> stall1 rn 2 cur 1 s) rn = Some a"
    using assms(1) by (cases opnd) simp_all
  ultimately show ?thesis
    using assms(3) by (simp add: exec_cmp_def Let_def)
qed

lemma operand_of_counters [simp]:
  "operand_of opnd (s\<lparr>cycle_count := a, execute_count := b, last_dst := c\<rparr>) = operand_of opnd s"
  by (cases opnd) simp_all

lemma flag_result_counters [simp]:
  "flag_result i (s\<lparr>cycle_count := a, execute_count := b, last_dst := c\<rparr>) = flag_result i s"
  by (cases i) (simp_all cong: option.case_cong)

lemma flags_after_execute:
  assumes "execute e i s = Inr s'"
  shows "if flag_writer i
         then (\<exists>r. flag_result i s = Some r \<and> n_flag s' = (r < 0) \<and> z_flag s' = (r = 0))
         else if calls_host i s
         then (\<exists>t t'. host_call e (host_label i) t = Inr t'
                  \<and> n_flag t = n_flag s \<and> z_flag t = z_flag s
                  \<and> n_flag s' = n_flag t' \<and> z_flag s' = z_flag t')
         else n_flag s' = n_flag s \<and> z_flag s' = z_flag s"
proof -
  let ?c = "cycle_count s"
  let ?s = "s\<lparr>cycle_count := cycle_count s + 1, execute_count := execute_count s + 1,
               last_dst := PyNone\<rparr>"
  have d: "dispatch e ?c i ?s = Inr s'"
    using assms(1) by (simp add: execute_def Let_def)
  have f: "n_flag ?s = n_flag s" "z_flag ?s = z_flag s" "flag_result i ?s = flag_result i s"
    "linked_labels ?s = linked_labels s"
    by simp_all
  show ?thesis
  proof (cases i)
    case (Ld k rt m)
    with d f exec_load_flags [of ?c k rt m ?s s'] show ?thesis by simp
  next
    case (LdurVar rt v)
    with d show ?thesis by (auto simp add: ebind_eq_Inr)
  next
    case (St k rt m)
    with d f exec_store_flags [of ?c k rt m ?s s'] show ?thesis by simp
  next
    case (MovImm rd imm)
    with d show ?thesis by auto
  next
    case (MovReg rd rn)
    with d show ?thesis by (auto simp add: Let_def ebind_eq_Inr)
  next
    case (AsrImm rd rn imm)
    with d f exec_shift_imm_flags [of ?c _ rd rn imm ?s s'] show ?thesis by simp
  next
    case (LsrImm rd rn imm)
    with d f exec_shift_imm_flags [of ?c _ rd rn imm ?s s'] show ?thesis by simp
  next
    case (LsrReg rd rn rm)
    with d f exec_rrr_flags [of ?c _ rd rn rm ?s s'] show ?thesis by simp
  next
    case (LslImm rd rn imm)
    with d f exec_shift_imm_flags [of ?c _ rd rn imm ?s s'] show ?thesis by simp
  next
    case (LslReg rd rn rm)
    with d f exec_rrr_flags [of ?c _ rd rn rm ?s s'] show ?thesis by simp
  next
    case (Alu op setf rd rn opnd)
    with d f exec_alu_flags [of ?c op setf rd rn opnd ?s s'] show ?thesis
      by (cases setf) simp_all
  next
    case (Mul rd rn rm)
    with d obtain t where "exec_rrr ?c (\<lambda>a b. Inr (a * b)) rd rn rm ?s = Inr t"
      and "s' = add_cycles 4 t"
      by (auto simp add: ebind_eq_Inr)
    with Mul exec_rrr_flags [of ?c _ rd rn rm ?s t] show ?thesis by simp
  next
    case (Udiv rd rn rm)
    with d f exec_rrr_flags [of ?c _ rd rn rm ?s s'] show ?thesis by simp
  next
    case (Sdiv rd rn rm)
    with d f exec_rrr_flags [of ?c _ rd rn rm ?s s'] show ?thesis by simp
  next
    case (Cmp rn opnd)
    with d f exec_cmp_flags [of ?c rn opnd ?s s'] show ?thesis by simp
  next
    case (Cbnz rn l)
    with d f exec_cb_flags [of ?c _ rn l ?s s'] show ?thesis by simp
  next
    case (Cbz rn l)
    with d f exec_cb_flags [of ?c _ rn l ?s s'] show ?thesis by simp
  next
    case (B l)
    with d f jump_flags [of l ?s s'] show ?thesis by (simp split: if_splits)
  next
    case (Bcond c l)
    with d f exec_bcond_flags [of ?c c l ?s s'] show ?thesis by simp
  next
    case (Bl l)
    with d have g: "exec_bl e ?c l ?s = Inr s'" by simp
    show ?thesis
    proof (cases "l \<in> linked_labels s")
      case True
      with exec_bl_flags [OF g] Bl show ?thesis by simp
    next
      case False
      with exec_bl_flags [OF g] Bl show ?thesis by simp
    qed
  next
    case BrLr
    with d f exec_br_lr_flags [of ?s s'] show ?thesis by simp
  next
    case Svc0
    with d f exec_svc_flags [of e ?s s'] show ?thesis by simp
  next
    case Unsupported
    with d show ?thesis by simp
  qed
qed

lemma flag_writer_succeeds:
  assumes "flag_writer i" and "\<not> cmp_with_sp i" and "flag_result i s = Some r"
  shows "\<exists>s'. execute e i s = Inr s' \<and> n_flag s' = (r < 0) \<and> z_flag s' = (r = 0)"
proof -
  let ?c = "cycle_count s"
  let ?s = "s\<lparr>cycle_count := cycle_count s + 1, execute_count := execute_count s + 1,
               last_dst := PyNone\<rparr>"
  have e: "execute e i s = dispatch e ?c i ?s"
    by (simp add: execute_def Let_def)
  show ?thesis
  proof (cases i)
    case (Alu op setf rd rn opnd)
    with assms obtain a b where ab: "reg ?s rn = Some a" "operand_of opnd ?s = Some b"
      and r: "r = alu_apply op a b" and setf: "setf"
      by (auto split: option.splits)
    from exec_alu_sets_flags [OF ab, of ?c op rd] Alu r setf e show ?thesis by simp
  next
    case (Cmp rn opnd)
    with assms obtain a b where ab: "reg ?s rn = Some a" "operand_of opnd ?s = Some b"
      and r: "r = a - b"
      by (auto split: option.splits)
    from Cmp assms(2) have ns: "opnd \<noteq> Reg SP" by auto
    from exec_cmp_sets_flags [OF ab ns, of ?c] Cmp r e show ?thesis by simp
  qed (use assms(1) in simp_all)
qed

text \<open>
  Claim C7, as stated, fails at \<open>bl\<close> into a linked label: \<open>bl f\<close> is no flag writer,
  yet with \<open>f\<close> linked to a host callable that inverts the flags, executing it turns
  both \<open>N\<close> and \<open>Z\<close> from clear to set.
\<close>

theorem bl_host_changes_flags_counterexample:
  "\<not> flag_writer (Bl ''f'')
   \<and> n_flag linked_state = False \<and> z_flag linked_state = False
   \<and> on_success n_flag (execute flip_host (Bl ''f'') linked_state) = Some True
   \<and> on_success z_flag (execute flip_host (Bl ''f'') linked_state) = Some True"
  by (simp add: execute_def exec_bl_def linked_state_def initial_state_def flip_host_def
      mentions_register_def is_xreg_def add_cycles_def Let_def)

text \<open>
  Claim C7, amended. Flags \<open>N\<close> and \<open>Z\<close> are modified only by \<open>cmp\<close>, by the \<open>s\<close>-suffixed
  forms \<open>adds\<close>/\<open>subs\<close>/\<open>ands\<close>/\<open>orrs\<close>/\<open>eors\<close>, and by the host callable that \<open>bl\<close> runs
  when its label is a linked label. A flag writer whose operands can be read (and that
  is not \<open>cmp rn,sp\<close>) executes and leaves \<open>N = (result < 0)\<close> and \<open>Z = (result = 0)\<close>,
  the result of \<open>cmp\<close> being \<open>reg[rn]\<close> minus the second operand, and no flag writer
  leaves anything else. \<open>bl\<close> into a linked label leaves the flags as the host callable
  returns them, having passed them to it unchanged. No other executed instruction
  changes \<open>n_flag\<close> or \<open>z_flag\<close>.
\<close>

theorem flags_written_by_flag_writers_or_host:
  "(flag_writer i \<and> \<not> cmp_with_sp i \<and> flag_result i s = Some r
      \<longrightarrow> (\<exists>s1. execute e i s = Inr s1 \<and> n_flag s1 = (r < 0) \<and> z_flag s1 = (r = 0)))
   \<and> (execute e i s = Inr s'
      \<longrightarrow> (if flag_writer i
           then (\<exists>r. flag_result i s = Some r \<and> n_flag s' = (r < 0) \<and> z_flag s' = (r = 0))
           else if calls_host i s
           then (\<exists>t t'. host_call e (host_label i) t = Inr t'
                    \<and> n_flag t = n_flag s \<and> z_flag t = z_flag s
                    \<and> n_flag s' = n_flag t' \<and> z_flag s' = z_flag t')
           else n_flag s' = n_flag s \<and> z_flag s' = z_flag s))"
  using flag_writer_succeeds [of i s r e] flags_after_execute [of e i s s'] by blast

theorem flags_written_by_flag_writers_or_host_witness:
  "(\<exists>s1. execute no_host (Cmp (X 0) (Imm 1)) initial_state = Inr s1
        \<and> n_flag s1 = True \<and> z_flag s1 = False)
   \<and> (\<exists>s1. execute no_host (Alu AddOp True XZR (X 1) (Reg (X 2))) initial_state = Inr s1
        \<and> n_flag s1 = False \<and> z_flag s1 = True)
   \<and> (\<exists>s'. execute no_host (MovImm (X 0) (- 7)) initial_state = Inr s'
        \<and> n_flag s' = False \<and> z_flag s' = False)
   \<and> (\<exists>s' t t'. execute flip_host (Bl ''f'') linked_state = Inr s'
        \<and> host_call flip_host ''f'' t = Inr t'
        \<and> n_flag t = False \<and> z_flag t = False
        \<and> n_flag s' = n_flag t' \<and> z_flag s' = z_flag t')"
proof -
  have c: "flag_writer (Cmp (X 0) (Imm 1))" "\<not> cmp_with_sp (Cmp (X 0) (Imm 1))"
    "flag_result (Cmp (X 0) (Imm 1)) initial_state = Some (- 1)"
    by (simp_all add: initial_state_def initial_reg_def)
  have a: "flag_writer (Alu AddOp True XZR (X 1) (Reg (X 2)))"
    "\<not> cmp_with_sp (Alu AddOp True XZR (X 1) (Reg (X 2)))"
    "flag_result (Alu AddOp True XZR (X 1) (Reg (X 2))) initial_state = Some 0"
    by (simp_all add: initial_state_def initial_reg_def)
  have "\<exists>s'. execute no_host (MovImm (X 0) (- 7)) initial_state = Inr s'"
    by (simp add: execute_def)
  then obtain s2 where m: "execute no_host (MovImm (X 0) (- 7)) initial_state = Inr s2" ..
  have "\<exists>s'. execute flip_host (Bl ''f'') linked_state = Inr s'"
    by (simp add: execute_def exec_bl_def linked_state_def initial_state_def flip_host_def
        mentions_register_def is_xreg_def add_cycles_def Let_def)
  then obtain s3 where b: "execute flip_host (Bl ''f'') linked_state = Inr s3" ..
  have fl: "n_flag initial_state = False" "z_flag initial_state = False"
    "n_flag linked_state = False" "z_flag linked_state = False"
    "calls_host (Bl ''f'') linked_state"
    by (simp_all add: initial_state_def linked_state_def)
  from flags_written_by_flag_writers_or_host
         [of "Cmp (X 0) (Imm 1)" initial_state "- 1" no_host] c
  have w1: "\<exists>s1. execute no_host (Cmp (X 0) (Imm 1)) initial_state = Inr s1
        \<and> n_flag s1 = True \<and> z_flag s1 = False"
    by simp
  from flags_written_by_flag_writers_or_host
         [of "Alu AddOp True XZR (X 1) (Reg (X 2))" initial_state 0 no_host] a
  have w2: "\<exists>s1. execute no_host (Alu AddOp True XZR (X 1) (Reg (X 2))) initial_state = Inr s1
        \<and> n_flag s1 = False \<and> z_flag s1 = True"
    by simp
  from flags_written_by_flag_writers_or_host
         [of "MovImm (X 0) (- 7)" initial_state 0 no_host s2] m fl
  have w3: "\<exists>s'. execute no_host (MovImm (X 0) (- 7)) initial_state = Inr s'
        \<and> n_flag s' = False \<and> z_flag s' = False"
    by simp
  from flags_written_by_flag_writers_or_host
         [of "Bl ''f''" linked_state 0 flip_host s3] b fl
  have w4: "\<exists>s' t t'. execute flip_host (Bl ''f'') linked_state = Inr s'
        \<and> host_call flip_host ''f'' t = Inr t'
        \<and> n_flag t = False \<and> z_flag t = False
        \<and> n_flag s' = n_flag t' \<and> z_flag s' = z_flag t'"
    by auto
  from w1 w2 w3 w4 show ?thesis by blast
qed

end
